theory Spec2Isabelle
  imports Complex_Main
begin

section \<open>Python values, errors and indexing\<close>

text \<open>
  The script \<^verbatim>\<open>transfer3_fp_freesolv.py\<close> is embedded function by function.
  Every exception the Python code can raise is a value \<open>Inl e\<close> of the result type
  \<open>error + 'a\<close>; a normal return is \<open>Inr v\<close>. Python floats (the losses, the learning
  rate, the entries of the numpy arrays and torch tensors) are modelled by \<open>real\<close>:
  rounding, infinities and NaN are not modelled.
\<close>

datatype error =
  IndexError | KeyError | ValueError | AttributeError | NameError | RuntimeError |
  StopIteration

text \<open>
  The Python values that the script compares with \<^verbatim>\<open>==\<close> and \<^verbatim>\<open>in\<close>: integers and
  strings. An integer never equals a string, as in Python.
\<close>

datatype pyval = PInt int | PStr string

text \<open>\<^verbatim>\<open>xs[i]\<close> on a Python list: a negative index counts from the end, an index
  out of range raises \<^verbatim>\<open>IndexError\<close>.\<close>

definition py_index :: "'a list \<Rightarrow> int \<Rightarrow> error + 'a" where
  "py_index xs i =
     (if 0 \<le> i \<and> i < int (length xs) then Inr (xs ! nat i)
      else if i < 0 \<and> - int (length xs) \<le> i then Inr (xs ! nat (int (length xs) + i))
      else Inl IndexError)"

section \<open>The learning-rate schedule: \<^verbatim>\<open>reduce_lr\<close>\<close>

text \<open>
  A parameter group of the optimizer is a dictionary; the optimizer holds a list of
  them. The model keeps the float-valued entries of a group (\<^verbatim>\<open>'lr'\<close> among them),
  the only ones the script writes.
\<close>

type_synonym param_group = "string \<rightharpoonup> real"

record optimizer =
  param_groups :: "param_group list"

text \<open>
  \<^verbatim>\<open>
  if epoch != 0:
      if (loss_list[epoch] >= loss_list[epoch-1]):
          result = True
  \<close>
\<close>

definition no_improvement :: "real list \<Rightarrow> int \<Rightarrow> bool \<Rightarrow> error + bool" where
  "no_improvement loss_list epoch result =
     (if epoch \<noteq> 0 then
        (case py_index loss_list epoch of Inl e \<Rightarrow> Inl e | Inr cur \<Rightarrow>
         (case py_index loss_list (epoch - 1) of Inl e \<Rightarrow> Inl e | Inr prev \<Rightarrow>
            Inr (if cur \<ge> prev then True else result)))
      else Inr result)"

text \<open>
  \<^verbatim>\<open>
  for i in range(1,5):
      dif += abs(loss_list[epoch - i]-loss_list[epoch-i-1])
  \<close>
  The loop over the values of \<^verbatim>\<open>i\<close>, with the running sum \<^verbatim>\<open>dif\<close>.
\<close>

fun dif_loop :: "real list \<Rightarrow> int \<Rightarrow> int list \<Rightarrow> real \<Rightarrow> error + real" where
  "dif_loop loss_list epoch [] dif = Inr dif"
| "dif_loop loss_list epoch (i # is) dif =
     (case py_index loss_list (epoch - i) of Inl e \<Rightarrow> Inl e | Inr a \<Rightarrow>
      (case py_index loss_list (epoch - i - 1) of Inl e \<Rightarrow> Inl e | Inr b \<Rightarrow>
         dif_loop loss_list epoch is (dif + \<bar>a - b\<bar>)))"

text \<open>
  \<^verbatim>\<open>
  if epoch >= 5:
      dif = 0
      for i in range(1,5): ...
      dif = dif/4
      if(dif * 3 < abs(loss_list[epoch]-loss_list[epoch-1])):
          result = True
  \<close>
\<close>

definition sharp_change :: "real list \<Rightarrow> int \<Rightarrow> bool \<Rightarrow> error + bool" where
  "sharp_change loss_list epoch result =
     (if epoch \<ge> 5 then
        (case dif_loop loss_list epoch [1, 2, 3, 4] 0 of Inl e \<Rightarrow> Inl e | Inr dif0 \<Rightarrow>
         (let dif = dif0 / 4 in
          (case py_index loss_list epoch of Inl e \<Rightarrow> Inl e | Inr cur \<Rightarrow>
           (case py_index loss_list (epoch - 1) of Inl e \<Rightarrow> Inl e | Inr prev \<Rightarrow>
              Inr (if dif * 3 < \<bar>cur - prev\<bar> then True else result)))))
      else Inr result)"

text \<open>
  \<^verbatim>\<open>
  for g in optimizer.param_groups:
      g['lr'] = lr
  \<close>
\<close>

definition set_lr :: "optimizer \<Rightarrow> real \<Rightarrow> optimizer" where
  "set_lr opt lr =
     opt\<lparr>param_groups := map (\<lambda>g. g(''lr'' \<mapsto> lr)) (param_groups opt)\<rparr>"

text \<open>
  \<^verbatim>\<open>reduce_lr(loss_list, epoch, lr, optimizer)\<close> returns the learning rate and updates
  the optimizer in place; the model returns both.
\<close>

definition reduce_lr ::
  "real list \<Rightarrow> int \<Rightarrow> real \<Rightarrow> optimizer \<Rightarrow> error + (real \<times> optimizer)" where
  "reduce_lr loss_list epoch lr opt =
     (case no_improvement loss_list epoch False of Inl e \<Rightarrow> Inl e | Inr r1 \<Rightarrow>
      (case sharp_change loss_list epoch r1 of Inl e \<Rightarrow> Inl e | Inr result \<Rightarrow>
         if result then Inr (lr * 0.95, set_lr opt (lr * 0.95)) else Inr (lr, opt)))"

text \<open>
  The epoch loop of the script, as far as the learning rate goes (lines 191 to 210):
  each epoch appends its mean loss to \<^verbatim>\<open>loss_list\<close> and then calls
  \<^verbatim>\<open>lr = reduce_lr(loss_list, epoch, lr, optimizer)\<close>. The mean losses of the
  epochs still to run are the first argument; the result lists the learning rate
  after each of them.
\<close>

fun lr_schedule ::
  "real list \<Rightarrow> real list \<Rightarrow> int \<Rightarrow> real \<Rightarrow> optimizer \<Rightarrow> error + (real list \<times> optimizer)" where
  "lr_schedule [] loss_list epoch lr opt = Inr ([], opt)"
| "lr_schedule (x # xs) loss_list epoch lr opt =
     (case reduce_lr (loss_list @ [x]) epoch lr opt of Inl e \<Rightarrow> Inl e | Inr (lr', opt') \<Rightarrow>
      (case lr_schedule xs (loss_list @ [x]) (epoch + 1) lr' opt' of Inl e \<Rightarrow> Inl e
       | Inr (lrs, opt'') \<Rightarrow> Inr (lr' # lrs, opt'')))"

text \<open>
  The decay condition in the words of the specification: the loss of the current
  epoch does not improve on the previous one, or its absolute change exceeds three
  times the average of the four preceding absolute changes.
\<close>

definition abs_change :: "real list \<Rightarrow> nat \<Rightarrow> real" where
  "abs_change loss_list k = \<bar>loss_list ! k - loss_list ! (k - 1)\<bar>"

definition decay_condition :: "real list \<Rightarrow> nat \<Rightarrow> bool" where
  "decay_condition loss_list k \<longleftrightarrow>
     (k > 0 \<and> loss_list ! k \<ge> loss_list ! (k - 1)) \<or>
     (k \<ge> 5 \<and> abs_change loss_list k >
        3 * ((abs_change loss_list (k - 1) + abs_change loss_list (k - 2)
              + abs_change loss_list (k - 3) + abs_change loss_list (k - 4)) / 4))"

section \<open>Molecules and arrays: the library values the script works on\<close>

text \<open>
  An RDKit atom, with the four properties \<^verbatim>\<open>get_atom_feature\<close> reads:
  \<^verbatim>\<open>GetSymbol()\<close>, \<^verbatim>\<open>GetFormalCharge()\<close>, \<^verbatim>\<open>GetTotalNumHs()\<close> and
  \<^verbatim>\<open>GetIsAromatic()\<close>.
\<close>

record atom =
  symbol :: string
  formal_charge :: int
  total_num_hs :: int
  is_aromatic :: bool

text \<open>
  An RDKit molecule: its atoms, indexed from 0, and its bonds as pairs of atom
  indices. \<^verbatim>\<open>Chem.MolFromSmiles\<close> is a parameter \<open>MolFromSmiles\<close> of type
  \<open>string \<Rightarrow> mol option\<close> of every function that calls it: \<open>None\<close> is Python's
  \<^verbatim>\<open>None\<close>, returned for a string that does not parse.
\<close>

record mol =
  atoms :: "atom list"
  bonds :: "(nat \<times> nat) list"

definition GetNumAtoms :: "mol \<Rightarrow> nat" where
  "GetNumAtoms m = length (atoms m)"

definition GetAtomWithIdx :: "mol \<Rightarrow> nat \<Rightarrow> error + atom" where
  "GetAtomWithIdx m i = (if i < length (atoms m) then Inr (atoms m ! i) else Inl RuntimeError)"

text \<open>RDKit never builds a bond from an atom to itself.\<close>

definition no_self_bond :: "mol \<Rightarrow> bool" where
  "no_self_bond m = list_all (\<lambda>(i, j). i \<noteq> j) (bonds m)"

text \<open>
  A two-dimensional numpy array (and the torch tensor \<^verbatim>\<open>torch.from_numpy\<close> makes of
  it): its shape and its rows. The shape is kept beside the rows since an array
  with no rows still has a number of columns.
\<close>

record ndarray =
  nrows :: nat
  ncols :: nat
  entries :: "real list list"

definition np_zeros :: "int \<Rightarrow> int \<Rightarrow> error + ndarray" where
  "np_zeros r c =
     (if r < 0 \<or> c < 0 then Inl ValueError
      else Inr \<lparr>nrows = nat r, ncols = nat c,
                entries = replicate (nat r) (replicate (nat c) 0)\<rparr>)"

definition np_eye :: "nat \<Rightarrow> ndarray" where
  "np_eye n =
     \<lparr>nrows = n, ncols = n,
      entries = map (\<lambda>i. map (\<lambda>j. if i = j then 1 else 0) [0..<n]) [0..<n]\<rparr>"

text \<open>\<^verbatim>\<open>GetAdjacencyMatrix(m)\<close>: entry \<open>(i, j)\<close> is 1 where a bond joins the atoms
  \<open>i\<close> and \<open>j\<close>, and 0 elsewhere.\<close>

definition bonded :: "mol \<Rightarrow> nat \<Rightarrow> nat \<Rightarrow> bool" where
  "bonded m i j \<longleftrightarrow> (i, j) \<in> set (bonds m) \<or> (j, i) \<in> set (bonds m)"

definition GetAdjacencyMatrix :: "mol \<Rightarrow> ndarray" where
  "GetAdjacencyMatrix m =
     (let n = length (atoms m) in
      \<lparr>nrows = n, ncols = n,
       entries = map (\<lambda>i. map (\<lambda>j. if bonded m i j then 1 else 0) [0..<n]) [0..<n]\<rparr>)"

text \<open>
  numpy broadcasting of two-dimensional arrays: two extents are compatible when they
  are equal or one of them is 1, and an array of extent 1 is read at index 0.
\<close>

definition broadcast_dim :: "nat \<Rightarrow> nat \<Rightarrow> nat option" where
  "broadcast_dim a b =
     (if a = b then Some a else if a = 1 then Some b else if b = 1 then Some a else None)"

definition bget :: "ndarray \<Rightarrow> nat \<Rightarrow> nat \<Rightarrow> real" where
  "bget a i j = entries a ! (if nrows a = 1 then 0 else i) ! (if ncols a = 1 then 0 else j)"

definition np_add :: "ndarray \<Rightarrow> ndarray \<Rightarrow> error + ndarray" where
  "np_add a b =
     (case broadcast_dim (nrows a) (nrows b) of None \<Rightarrow> Inl ValueError | Some r \<Rightarrow>
      (case broadcast_dim (ncols a) (ncols b) of None \<Rightarrow> Inl ValueError | Some c \<Rightarrow>
         Inr \<lparr>nrows = r, ncols = c,
              entries = map (\<lambda>i. map (\<lambda>j. bget a i j + bget b i j) [0..<c]) [0..<r]\<rparr>))"

text \<open>\<^verbatim>\<open>np.append(a, [row], axis = 0)\<close>: the row must have as many entries as \<open>a\<close>
  has columns.\<close>

definition np_append_row :: "ndarray \<Rightarrow> real list \<Rightarrow> error + ndarray" where
  "np_append_row a row =
     (if length row = ncols a
      then Inr (a\<lparr>nrows := nrows a + 1, entries := entries a @ [row]\<rparr>)
      else Inl ValueError)"

text \<open>
  The slice assignment \<^verbatim>\<open>dst[:r, :c] = src\<close>. The slice is cut to the extents of
  \<open>dst\<close>; \<open>src\<close> is broadcast to the shape of the slice, so each extent of \<open>src\<close> must
  equal the slice's or be 1 (an extent of 1 is also broadcast to an empty slice),
  and \<^verbatim>\<open>ValueError\<close> is raised otherwise.
\<close>

definition set_block :: "ndarray \<Rightarrow> nat \<Rightarrow> nat \<Rightarrow> ndarray \<Rightarrow> error + ndarray" where
  "set_block dst r c src =
     (let tr = min r (nrows dst); tc = min c (ncols dst) in
      if (nrows src = tr \<or> nrows src = 1) \<and> (ncols src = tc \<or> ncols src = 1)
      then Inr (dst\<lparr>entries :=
                  map (\<lambda>i. map (\<lambda>j. if i < tr \<and> j < tc then bget src i j
                                     else entries dst ! i ! j) [0..<ncols dst])
                      [0..<nrows dst]\<rparr>)
      else Inl ValueError)"

section \<open>Featurization: the class \<^verbatim>\<open>DataSet\<close>\<close>

record dataset =
  smiles_list :: "string list"
  freeE_list :: "real list"
  max_num_atoms :: int
  feature_list :: "ndarray list"
  adj_list :: "ndarray list"

text \<open>
  \<^verbatim>\<open>
  def one_of_k_encoding(self, x, allowable_set):
      if x not in allowable_set:
          x = allowable_set[-1]
      return list(map(lambda s: x == s, allowable_set))
  \<close>
\<close>

definition one_of_k_encoding :: "pyval \<Rightarrow> pyval list \<Rightarrow> error + bool list" where
  "one_of_k_encoding x allowable_set =
     (if x \<notin> set allowable_set
      then (case py_index allowable_set (- 1) of Inl e \<Rightarrow> Inl e
            | Inr x' \<Rightarrow> Inr (map (\<lambda>s. x' = s) allowable_set))
      else Inr (map (\<lambda>s. x = s) allowable_set))"

text \<open>
  \<^verbatim>\<open>
  def get_atom_feature(self, m, atom_i):
      atom = m.GetAtomWithIdx(atom_i)
      atom_feature = np.array(
          self.one_of_k_encoding(atom.GetSymbol(), ['C', 'N', 'O', 'F', 'ELSE'])
          + self.one_of_k_encoding(atom.GetFormalCharge(), [-1, 0, 1, 'ELSE'])
          + self.one_of_k_encoding(atom.GetTotalNumHs(), [0, 1, 2, 3, 4, 'ELSE'])
          + [atom.GetIsAromatic()])
      return atom_feature
  \<close>
\<close>

definition get_atom_feature :: "mol \<Rightarrow> nat \<Rightarrow> error + bool list" where
  "get_atom_feature m atom_i =
     (case GetAtomWithIdx m atom_i of Inl e \<Rightarrow> Inl e | Inr atom \<Rightarrow>
      (case one_of_k_encoding (PStr (symbol atom))
              [PStr ''C'', PStr ''N'', PStr ''O'', PStr ''F'', PStr ''ELSE''] of
         Inl e \<Rightarrow> Inl e | Inr e1 \<Rightarrow>
       (case one_of_k_encoding (PInt (formal_charge atom))
               [PInt (- 1), PInt 0, PInt 1, PStr ''ELSE''] of
          Inl e \<Rightarrow> Inl e | Inr e2 \<Rightarrow>
        (case one_of_k_encoding (PInt (total_num_hs atom))
                [PInt 0, PInt 1, PInt 2, PInt 3, PInt 4, PStr ''ELSE''] of
           Inl e \<Rightarrow> Inl e | Inr e3 \<Rightarrow>
             Inr (e1 @ e2 @ e3 @ [is_aromatic atom])))))"

text \<open>
  \<^verbatim>\<open>
  for i in range(num_atoms):
      atom_feature = np.append(atom_feature, [self.get_atom_feature(m, i)], axis = 0)
  \<close>
  A boolean becomes 1 or 0 in the integer array.
\<close>

fun feature_loop :: "mol \<Rightarrow> nat list \<Rightarrow> ndarray \<Rightarrow> error + ndarray" where
  "feature_loop m [] atom_feature = Inr atom_feature"
| "feature_loop m (i # is) atom_feature =
     (case get_atom_feature m i of Inl e \<Rightarrow> Inl e | Inr f \<Rightarrow>
      (case np_append_row atom_feature (map of_bool f) of Inl e \<Rightarrow> Inl e
       | Inr atom_feature' \<Rightarrow> feature_loop m is atom_feature'))"

text \<open>
  The body of the loop of \<^verbatim>\<open>process_data\<close> for one SMILES string, up to the two
  padded arrays it appends. On \<^verbatim>\<open>None\<close> the call \<^verbatim>\<open>m.GetNumAtoms()\<close> raises
  \<^verbatim>\<open>AttributeError\<close>.
  \<^verbatim>\<open>
  m = Chem.MolFromSmiles(smiles)
  num_atoms = m.GetNumAtoms()
  atom_feature = np.empty((0,16), int)
  adj = GetAdjacencyMatrix(m) + np.eye(num_atoms)
  padded_feature = np.zeros((max_num_atoms, 16))
  padded_adj = np.zeros((max_num_atoms, max_num_atoms))
  for i in range(num_atoms): ...
  padded_feature[:num_atoms, :16] = atom_feature
  padded_adj[:num_atoms, :num_atoms] = adj
  \<close>
\<close>

definition process_smiles ::
  "(string \<Rightarrow> mol option) \<Rightarrow> int \<Rightarrow> string \<Rightarrow> error + (ndarray \<times> ndarray)" where
  "process_smiles MolFromSmiles max_atoms smiles =
     (case MolFromSmiles smiles of None \<Rightarrow> Inl AttributeError | Some m \<Rightarrow>
      (let num_atoms = GetNumAtoms m;
           atom_feature = \<lparr>nrows = 0, ncols = 16, entries = []\<rparr> in
       (case np_add (GetAdjacencyMatrix m) (np_eye num_atoms) of Inl e \<Rightarrow> Inl e | Inr adj \<Rightarrow>
        (case np_zeros max_atoms 16 of Inl e \<Rightarrow> Inl e | Inr padded_feature \<Rightarrow>
         (case np_zeros max_atoms max_atoms of Inl e \<Rightarrow> Inl e | Inr padded_adj \<Rightarrow>
          (case feature_loop m [0..<num_atoms] atom_feature of Inl e \<Rightarrow> Inl e
           | Inr atom_feature' \<Rightarrow>
           (case set_block padded_feature num_atoms 16 atom_feature' of Inl e \<Rightarrow> Inl e
            | Inr padded_feature' \<Rightarrow>
            (case set_block padded_adj num_atoms num_atoms adj of Inl e \<Rightarrow> Inl e
             | Inr padded_adj' \<Rightarrow> Inr (padded_feature', padded_adj')))))))))"

text \<open>
  \<^verbatim>\<open>
  for smiles in self.smiles_list:
      ...
      self.feature_list.append(torch.from_numpy(padded_feature))
      self.adj_list.append(torch.from_numpy(padded_adj))
  \<close>
\<close>

fun process_loop ::
  "(string \<Rightarrow> mol option) \<Rightarrow> string list \<Rightarrow> dataset \<Rightarrow> error + dataset" where
  "process_loop MolFromSmiles [] self = Inr self"
| "process_loop MolFromSmiles (smiles # rest) self =
     (case process_smiles MolFromSmiles (max_num_atoms self) smiles of Inl e \<Rightarrow> Inl e
      | Inr (padded_feature, padded_adj) \<Rightarrow>
          process_loop MolFromSmiles rest
            (self\<lparr>feature_list := feature_list self @ [padded_feature],
                  adj_list := adj_list self @ [padded_adj]\<rparr>))"

definition process_data :: "(string \<Rightarrow> mol option) \<Rightarrow> dataset \<Rightarrow> error + dataset" where
  "process_data MolFromSmiles self = process_loop MolFromSmiles (smiles_list self) self"

text \<open>
  \<^verbatim>\<open>
  def __init__(self, smiles_list, freeE_list, max_num_atoms):
      self.smiles_list = smiles_list
      self.freeE_list = torch.from_numpy(np.array(freeE_list))
      self.max_num_atoms = max_num_atoms
      self.feature_list = []
      self.adj_list = []
      self.process_data()
  \<close>
\<close>

definition DataSet_init ::
  "(string \<Rightarrow> mol option) \<Rightarrow> string list \<Rightarrow> real list \<Rightarrow> int \<Rightarrow> error + dataset" where
  "DataSet_init MolFromSmiles smiles freeE max_atoms =
     process_data MolFromSmiles
       \<lparr>smiles_list = smiles, freeE_list = freeE, max_num_atoms = max_atoms,
        feature_list = [], adj_list = []\<rparr>"

definition DataSet_len :: "dataset \<Rightarrow> nat" where
  "DataSet_len self = length (smiles_list self)"

text \<open>
  The encoding in the words of the specification: a one-hot vector of a given width,
  and the bucket of an element symbol, of a formal charge and of a hydrogen count,
  the last bucket of each being the catch-all.
\<close>

definition one_hot :: "nat \<Rightarrow> nat \<Rightarrow> bool list" where
  "one_hot n k = map (\<lambda>j. j = k) [0..<n]"

definition element_bucket :: "string \<Rightarrow> nat" where
  "element_bucket s =
     (if s = ''C'' then 0 else if s = ''N'' then 1 else if s = ''O'' then 2
      else if s = ''F'' then 3 else 4)"

definition charge_bucket :: "int \<Rightarrow> nat" where
  "charge_bucket c = (if c = - 1 then 0 else if c = 0 then 1 else if c = 1 then 2 else 3)"

definition hydrogen_bucket :: "int \<Rightarrow> nat" where
  "hydrogen_bucket h = (if 0 \<le> h \<and> h \<le> 4 then nat h else 5)"

definition atom_vector :: "atom \<Rightarrow> bool list" where
  "atom_vector a =
     one_hot 5 (element_bucket (symbol a)) @ one_hot 4 (charge_bucket (formal_charge a))
     @ one_hot 6 (hydrogen_bucket (total_num_hs a)) @ [is_aromatic a]"

definition count_true :: "bool list \<Rightarrow> nat" where
  "count_true bs = length (filter (\<lambda>b. b) bs)"

text \<open>What the two padded arrays of a molecule of at most \<open>M\<close> atoms hold, entry by
  entry: the rows of the atoms, the adjacency plus the identity, and zeros around them.\<close>

definition padded_feature_of :: "mol \<Rightarrow> nat \<Rightarrow> ndarray" where
  "padded_feature_of m M =
     \<lparr>nrows = M, ncols = 16,
      entries = map (\<lambda>i. map (\<lambda>j. if i < length (atoms m)
                                   then of_bool (atom_vector (atoms m ! i) ! j) else 0) [0..<16])
                    [0..<M]\<rparr>"

definition padded_adj_of :: "mol \<Rightarrow> nat \<Rightarrow> ndarray" where
  "padded_adj_of m M =
     \<lparr>nrows = M, ncols = M,
      entries = map (\<lambda>i. map (\<lambda>j. if i < length (atoms m) \<and> j < length (atoms m)
                                   then (if bonded m i j then 1 else 0) + (if i = j then 1 else 0)
                                   else 0) [0..<M])
                    [0..<M]\<rparr>"

text \<open>Example values: methane and ethanol as RDKit reads them from \<^verbatim>\<open>C\<close> and
  \<^verbatim>\<open>CCO\<close> (hydrogens implicit), and a parser for examples that knows these two
  SMILES strings only.\<close>

definition carbon :: "int \<Rightarrow> atom" where
  "carbon h = \<lparr>symbol = ''C'', formal_charge = 0, total_num_hs = h, is_aromatic = False\<rparr>"

definition methane :: mol where
  "methane = \<lparr>atoms = [carbon 4], bonds = []\<rparr>"

definition ethanol :: mol where
  "ethanol =
     \<lparr>atoms = [carbon 3, carbon 2,
               \<lparr>symbol = ''O'', formal_charge = 0, total_num_hs = 1, is_aromatic = False\<rparr>],
      bonds = [(0, 1), (1, 2)]\<rparr>"

definition toy_parse :: "string \<Rightarrow> mol option" where
  "toy_parse s = (if s = ''C'' then Some methane else if s = ''CCO'' then Some ethanol else None)"

text \<open>The data set of these two molecules with room for three atoms.\<close>

definition example_dataset :: dataset where
  "example_dataset =
     \<lparr>smiles_list = [''C'', ''CCO''], freeE_list = [1, 2], max_num_atoms = 3,
      feature_list =
        [\<lparr>nrows = 3, ncols = 16,
            entries =
              [[1, 0, 0, 0, 0, 0, 1, 0, 0, 0, 0, 0, 0, 1, 0, 0],
               [0, 0, 0, 0, 0, 0, 0, 0, 0, 0, 0, 0, 0, 0, 0, 0],
               [0, 0, 0, 0, 0, 0, 0, 0, 0, 0, 0, 0, 0, 0, 0, 0]]\<rparr>,
         \<lparr>nrows = 3, ncols = 16,
            entries =
              [[1, 0, 0, 0, 0, 0, 1, 0, 0, 0, 0, 0, 1, 0, 0, 0],
               [1, 0, 0, 0, 0, 0, 1, 0, 0, 0, 0, 1, 0, 0, 0, 0],
               [0, 0, 1, 0, 0, 0, 1, 0, 0, 0, 1, 0, 0, 0, 0, 0]]\<rparr>],
      adj_list =
        [\<lparr>nrows = 3, ncols = 3, entries = [[1, 0, 0], [0, 0, 0], [0, 0, 0]]\<rparr>,
         \<lparr>nrows = 3, ncols = 3, entries = [[1, 1, 0], [1, 1, 1], [0, 1, 1]]\<rparr>]\<rparr>"

section \<open>Loading the data: \<^verbatim>\<open>load_data\<close>\<close>

text \<open>
  The input is the list of rows that \<^verbatim>\<open>csv.reader\<close> yields for the opened file,
  the header row first; a blank line of the file is the empty row. Python's
  \<^verbatim>\<open>float\<close> is a parameter \<open>float\<close>: \<open>None\<close> where \<^verbatim>\<open>float(s)\<close> raises
  \<^verbatim>\<open>ValueError\<close>.
  \<^verbatim>\<open>
  for line in data:
      smiles = line[1]
      freeE = float(line[-1])
      mol = Chem.MolFromSmiles(smiles)
      if str(type(mol)) == "<class 'NoneType'>":
          continue
      if mol.GetNumAtoms() > max_num_atoms:
          continue
      else:
          smiles_list.append(smiles)
          freeE_list.append(freeE)
  \<close>
\<close>

fun load_loop ::
  "(string \<Rightarrow> mol option) \<Rightarrow> (string \<Rightarrow> real option) \<Rightarrow> int \<Rightarrow> string list list \<Rightarrow>
   string list \<times> real list \<Rightarrow> error + (string list \<times> real list)" where
  "load_loop MolFromSmiles float max_atoms [] (smiles_list', freeE_list') =
     Inr (smiles_list', freeE_list')"
| "load_loop MolFromSmiles float max_atoms (line # rest) (smiles_list', freeE_list') =
     (case py_index line 1 of Inl e \<Rightarrow> Inl e | Inr smiles \<Rightarrow>
      (case py_index line (- 1) of Inl e \<Rightarrow> Inl e | Inr field \<Rightarrow>
       (case float field of None \<Rightarrow> Inl ValueError | Some freeE \<Rightarrow>
        (case MolFromSmiles smiles of
           None \<Rightarrow> load_loop MolFromSmiles float max_atoms rest (smiles_list', freeE_list')
         | Some mol \<Rightarrow>
             if int (GetNumAtoms mol) > max_atoms
             then load_loop MolFromSmiles float max_atoms rest (smiles_list', freeE_list')
             else load_loop MolFromSmiles float max_atoms rest
                    (smiles_list' @ [smiles], freeE_list' @ [freeE])))))"

text \<open>
  \<^verbatim>\<open>
  def load_data(filename = 'freesolv.csv', max_num_atoms = 64):
      smiles_list = []
      freeE_list = []
      f = open(filename, 'r')
      data = csv.reader(f)
      next(data)
      for line in data: ...
      return (smiles_list, freeE_list)
  \<close>
  \<^verbatim>\<open>next(data)\<close> skips the header and raises \<^verbatim>\<open>StopIteration\<close> on a file without
  rows.
\<close>

definition load_data ::
  "(string \<Rightarrow> mol option) \<Rightarrow> (string \<Rightarrow> real option) \<Rightarrow> string list list \<Rightarrow> int \<Rightarrow>
   error + (string list \<times> real list)" where
  "load_data MolFromSmiles float rows max_atoms =
     (case rows of [] \<Rightarrow> Inl StopIteration
      | header # data \<Rightarrow> load_loop MolFromSmiles float max_atoms data ([], []))"

text \<open>The call \<^verbatim>\<open>load_data()\<close> of the script, with the default \<^verbatim>\<open>max_num_atoms = 64\<close>.\<close>

definition load_data_default ::
  "(string \<Rightarrow> mol option) \<Rightarrow> (string \<Rightarrow> real option) \<Rightarrow> string list list \<Rightarrow>
   error + (string list \<times> real list)" where
  "load_data_default MolFromSmiles float rows = load_data MolFromSmiles float rows 64"

text \<open>
  In the words of the specification: a row is kept when its SMILES string parses to a
  molecule of at most \<open>max_num_atoms\<close> atoms. A row is well-formed when it has at least
  two fields and \<^verbatim>\<open>float\<close> accepts its last field.
\<close>

definition kept :: "(string \<Rightarrow> mol option) \<Rightarrow> int \<Rightarrow> string list \<Rightarrow> bool" where
  "kept MolFromSmiles max_atoms line =
     (case MolFromSmiles (line ! 1) of None \<Rightarrow> False
      | Some mol \<Rightarrow> int (GetNumAtoms mol) \<le> max_atoms)"

definition well_formed_row :: "(string \<Rightarrow> real option) \<Rightarrow> string list \<Rightarrow> bool" where
  "well_formed_row float line \<longleftrightarrow> 2 \<le> length line \<and> float (last line) \<noteq> None"

definition pairs_of ::
  "(string \<Rightarrow> real option) \<Rightarrow> string list list \<Rightarrow> string list \<times> real list" where
  "pairs_of float lines = (map (\<lambda>line. line ! 1) lines, map (\<lambda>line. the (float (last line))) lines)"

text \<open>An example reading of two number strings.\<close>

definition toy_float :: "string \<Rightarrow> real option" where
  "toy_float s = (if s = ''-0.5'' then Some (- 0.5) else if s = ''1.5'' then Some 1.5 else None)"

section \<open>The model: the class \<^verbatim>\<open>Transfer\<close>\<close>

text \<open>
  A parameter of a torch module: its tensor and the flag \<^verbatim>\<open>requires_grad\<close>. A
  linear layer \<^verbatim>\<open>nn.Linear(in_features, out_features)\<close> has a weight of shape
  \<open>(out_features, in_features)\<close> and a bias of length \<open>out_features\<close>, both created
  with \<^verbatim>\<open>requires_grad = True\<close>. torch draws their first values at random: here
  they are given by a pair of functions.
\<close>

record 'a parameter =
  data :: 'a
  requires_grad :: bool

record linear =
  weight :: "ndarray parameter"
  bias :: "real list parameter"

definition nn_Linear :: "(nat \<Rightarrow> nat \<Rightarrow> real) \<times> (nat \<Rightarrow> real) \<Rightarrow> nat \<Rightarrow> nat \<Rightarrow> linear" where
  "nn_Linear init in_features out_features =
     \<lparr>weight =
        \<lparr>data = \<lparr>nrows = out_features, ncols = in_features,
                 entries = map (\<lambda>r. map (\<lambda>c. fst init r c) [0..<in_features])
                               [0..<out_features]\<rparr>,
         requires_grad = True\<rparr>,
      bias = \<lparr>data = map (snd init) [0..<out_features], requires_grad = True\<rparr>\<rparr>"

text \<open>
  \<^verbatim>\<open>
  def __init__(self, n_channel = 128, d_out = 1 , n_conv_layer = 10):
      super().__init__()
      self.activation = nn.ReLU()
      self.embedding = nn.Linear(16, n_channel)
      layer_list = []
      for i in range(n_conv_layer):
          layer_list.append(nn.Linear(n_channel, n_channel))
      self.W = nn.ModuleList(layer_list)
      self.fc = nn.Linear(n_channel, 1024)
      self.linear1 = nn.Linear(1024, 1024)
      self.linear2 = nn.Linear(1024, d_out)
  \<close>
  The layers are numbered in the order of their creation; \<open>init k\<close> gives the first
  values of layer \<open>k\<close>.
\<close>

record transfer =
  embedding :: linear
  W :: "linear list"
  fc :: linear
  linear1 :: linear
  linear2 :: linear

definition Transfer_init ::
  "(nat \<Rightarrow> (nat \<Rightarrow> nat \<Rightarrow> real) \<times> (nat \<Rightarrow> real)) \<Rightarrow> nat \<Rightarrow> nat \<Rightarrow> nat \<Rightarrow> transfer" where
  "Transfer_init init n_channel d_out n_conv_layer =
     \<lparr>embedding = nn_Linear (init 0) 16 n_channel,
      W = map (\<lambda>i. nn_Linear (init (i + 1)) n_channel n_channel) [0..<n_conv_layer],
      fc = nn_Linear (init (n_conv_layer + 1)) n_channel 1024,
      linear1 = nn_Linear (init (n_conv_layer + 2)) 1024 1024,
      linear2 = nn_Linear (init (n_conv_layer + 3)) 1024 d_out\<rparr>"

subsection \<open>The state dictionary\<close>

text \<open>
  An entry of a state dictionary is a tensor of one dimension (a bias) or of two (a
  weight). \<^verbatim>\<open>state_dict()\<close> lists the parameters under their names, in the order in
  which the modules were registered: \<^verbatim>\<open>embedding.weight\<close>, \<^verbatim>\<open>embedding.bias\<close>,
  \<^verbatim>\<open>W.0.weight\<close>, \<^verbatim>\<open>W.0.bias\<close>, ..., \<^verbatim>\<open>linear2.bias\<close>.
\<close>

datatype tensor = T1 "real list" | T2 ndarray

fun tensor_shape :: "tensor \<Rightarrow> nat list" where
  "tensor_shape (T1 v) = [length v]"
| "tensor_shape (T2 a) = [nrows a, ncols a]"

definition digit_char :: "nat \<Rightarrow> char" where
  "digit_char d = char_of (48 + d)"

fun show_nat :: "nat \<Rightarrow> string" where
  "show_nat n = (if n < 10 then [digit_char n] else show_nat (n div 10) @ [digit_char (n mod 10)])"

text \<open>Reading a decimal numeral back, to tell the names of the layers apart.\<close>

definition read_nat :: "string \<Rightarrow> nat" where
  "read_nat s = foldl (\<lambda>a c. 10 * a + (of_char c - 48)) 0 s"

definition linear_state :: "string \<Rightarrow> linear \<Rightarrow> (string \<times> tensor) list" where
  "linear_state prefix l =
     [(prefix @ ''.weight'', T2 (data (weight l))), (prefix @ ''.bias'', T1 (data (bias l)))]"

fun layers_state :: "nat \<Rightarrow> linear list \<Rightarrow> (string \<times> tensor) list" where
  "layers_state i [] = []"
| "layers_state i (l # ls) = linear_state (''W.'' @ show_nat i) l @ layers_state (i + 1) ls"

definition state_dict :: "transfer \<Rightarrow> (string \<times> tensor) list" where
  "state_dict self =
     linear_state ''embedding'' (embedding self) @ layers_state 0 (W self)
     @ linear_state ''fc'' (fc self) @ linear_state ''linear1'' (linear1 self)
     @ linear_state ''linear2'' (linear2 self)"

text \<open>
  \<^verbatim>\<open>load_state_dict(state_dict, strict = True)\<close> copies the entry of each parameter's
  name into the parameter, which keeps its \<^verbatim>\<open>requires_grad\<close>. It raises
  \<^verbatim>\<open>RuntimeError\<close> when a name is missing, when an entry has another shape than its
  parameter, or when the dictionary has a name that the model has not. (torch raises
  after it has copied the entries that fit; the model gives the error only.)
\<close>

definition load_weight ::
  "(string \<times> tensor) list \<Rightarrow> string \<Rightarrow> ndarray parameter \<Rightarrow> error + ndarray parameter" where
  "load_weight sd key p =
     (case map_of sd key of
        Some (T2 a) \<Rightarrow>
          if nrows a = nrows (data p) \<and> ncols a = ncols (data p) then Inr (p\<lparr>data := a\<rparr>)
          else Inl RuntimeError
      | _ \<Rightarrow> Inl RuntimeError)"

definition load_bias ::
  "(string \<times> tensor) list \<Rightarrow> string \<Rightarrow> real list parameter \<Rightarrow> error + real list parameter" where
  "load_bias sd key p =
     (case map_of sd key of
        Some (T1 v) \<Rightarrow> if length v = length (data p) then Inr (p\<lparr>data := v\<rparr>) else Inl RuntimeError
      | _ \<Rightarrow> Inl RuntimeError)"

definition load_linear :: "(string \<times> tensor) list \<Rightarrow> string \<Rightarrow> linear \<Rightarrow> error + linear" where
  "load_linear sd prefix l =
     (case load_weight sd (prefix @ ''.weight'') (weight l) of Inl e \<Rightarrow> Inl e | Inr w \<Rightarrow>
      (case load_bias sd (prefix @ ''.bias'') (bias l) of Inl e \<Rightarrow> Inl e | Inr b \<Rightarrow>
         Inr (l\<lparr>weight := w, bias := b\<rparr>)))"

fun load_layers :: "(string \<times> tensor) list \<Rightarrow> nat \<Rightarrow> linear list \<Rightarrow> error + linear list" where
  "load_layers sd i [] = Inr []"
| "load_layers sd i (l # ls) =
     (case load_linear sd (''W.'' @ show_nat i) l of Inl e \<Rightarrow> Inl e | Inr l' \<Rightarrow>
      (case load_layers sd (i + 1) ls of Inl e \<Rightarrow> Inl e | Inr ls' \<Rightarrow> Inr (l' # ls')))"

definition load_state_dict :: "transfer \<Rightarrow> (string \<times> tensor) list \<Rightarrow> error + transfer" where
  "load_state_dict self sd =
     (if \<not> list_all (\<lambda>(key, t). key \<in> set (map fst (state_dict self))) sd then Inl RuntimeError
      else
      (case load_linear sd ''embedding'' (embedding self) of Inl e \<Rightarrow> Inl e | Inr emb \<Rightarrow>
       (case load_layers sd 0 (W self) of Inl e \<Rightarrow> Inl e | Inr ws \<Rightarrow>
        (case load_linear sd ''fc'' (fc self) of Inl e \<Rightarrow> Inl e | Inr f \<Rightarrow>
         (case load_linear sd ''linear1'' (linear1 self) of Inl e \<Rightarrow> Inl e | Inr l1 \<Rightarrow>
          (case load_linear sd ''linear2'' (linear2 self) of Inl e \<Rightarrow> Inl e | Inr l2 \<Rightarrow>
             Inr \<lparr>embedding = emb, W = ws, fc = f, linear1 = l1, linear2 = l2\<rparr>))))))"

subsection \<open>\<^verbatim>\<open>load_model\<close> and \<^verbatim>\<open>freeze\<close>\<close>

text \<open>\<^verbatim>\<open>d[key] = v\<close> on a Python dictionary, which keeps the order of insertion.\<close>

fun dict_set :: "('k \<times> 'v) list \<Rightarrow> 'k \<Rightarrow> 'v \<Rightarrow> ('k \<times> 'v) list" where
  "dict_set [] key v = [(key, v)]"
| "dict_set ((k, u) # d) key v = (if k = key then (k, v) # d else (k, u) # dict_set d key v)"

text \<open>
  \<^verbatim>\<open>
  def load_model(self, pretrian_dict):
      model_dict = self.state_dict()
      load_dict = dict()
      for key in model_dict.keys():
          if key in pretrain_dict.keys():
              load_dict[key] = pretrain_dict[key]
          else:
              load_dict[key] = model_dict[key]
      self.load_state_dict(load_dict, strict = True)
  \<close>
  The parameter is spelt \<^verbatim>\<open>pretrian_dict\<close>; the body reads \<^verbatim>\<open>pretrain_dict\<close>, which
  is no local name, so Python looks it up among the globals of the module: the
  dictionary bound there (line 181), or \<^verbatim>\<open>NameError\<close> when none is bound. The model
  takes both: the argument, and the global as an option.
\<close>

fun load_dict_loop ::
  "(string \<times> tensor) list \<Rightarrow> (string \<rightharpoonup> tensor) option \<Rightarrow> string list \<Rightarrow>
   (string \<times> tensor) list \<Rightarrow> error + (string \<times> tensor) list" where
  "load_dict_loop model_dict pretrain_dict [] load_dict = Inr load_dict"
| "load_dict_loop model_dict pretrain_dict (key # keys) load_dict =
     (case pretrain_dict of None \<Rightarrow> Inl NameError | Some pd \<Rightarrow>
      (case pd key of
         Some t \<Rightarrow> load_dict_loop model_dict pretrain_dict keys (dict_set load_dict key t)
       | None \<Rightarrow>
         (case map_of model_dict key of None \<Rightarrow> Inl KeyError
          | Some t \<Rightarrow> load_dict_loop model_dict pretrain_dict keys (dict_set load_dict key t))))"

definition load_model ::
  "transfer \<Rightarrow> (string \<rightharpoonup> tensor) \<Rightarrow> (string \<rightharpoonup> tensor) option \<Rightarrow> error + transfer" where
  "load_model self pretrian_dict pretrain_dict =
     (let model_dict = state_dict self in
      (case load_dict_loop model_dict pretrain_dict (map fst model_dict) [] of Inl e \<Rightarrow> Inl e
       | Inr load_dict \<Rightarrow> load_state_dict self load_dict))"

text \<open>
  \<^verbatim>\<open>
  def freeze(self):
      w_parameters = self.W.parameters()
      for param in w_parameters:
          param.requires_grad = False
  \<close>
\<close>

definition freeze_linear :: "linear \<Rightarrow> linear" where
  "freeze_linear l =
     l\<lparr>weight := (weight l)\<lparr>requires_grad := False\<rparr>, bias := (bias l)\<lparr>requires_grad := False\<rparr>\<rparr>"

definition freeze :: "transfer \<Rightarrow> transfer" where
  "freeze self = self\<lparr>W := map freeze_linear (W self)\<rparr>"

text \<open>
  The parameters of a model with their names (a parameter as its tensor and its
  flag), to state which of them are frozen; and what a checkpoint \<open>g\<close> makes of a
  model, in the words of the specification: a parameter whose name \<open>g\<close> holds takes the
  value of \<open>g\<close>, every other parameter keeps its value.
\<close>

definition linear_parameters :: "string \<Rightarrow> linear \<Rightarrow> (string \<times> tensor \<times> bool) list" where
  "linear_parameters prefix l =
     [(prefix @ ''.weight'', T2 (data (weight l)), requires_grad (weight l)),
      (prefix @ ''.bias'', T1 (data (bias l)), requires_grad (bias l))]"

fun layers_parameters :: "nat \<Rightarrow> linear list \<Rightarrow> (string \<times> tensor \<times> bool) list" where
  "layers_parameters i [] = []"
| "layers_parameters i (l # ls) =
     linear_parameters (''W.'' @ show_nat i) l @ layers_parameters (i + 1) ls"

definition named_parameters :: "transfer \<Rightarrow> (string \<times> tensor \<times> bool) list" where
  "named_parameters self =
     linear_parameters ''embedding'' (embedding self) @ layers_parameters 0 (W self)
     @ linear_parameters ''fc'' (fc self) @ linear_parameters ''linear1'' (linear1 self)
     @ linear_parameters ''linear2'' (linear2 self)"

text \<open>A small model (one channel, one convolution layer, narrow head) for examples.\<close>

definition tiny_linear :: "real \<Rightarrow> real \<Rightarrow> linear" where
  "tiny_linear w b =
     \<lparr>weight = \<lparr>data = \<lparr>nrows = 1, ncols = 1, entries = [[w]]\<rparr>, requires_grad = True\<rparr>,
      bias = \<lparr>data = [b], requires_grad = True\<rparr>\<rparr>"

definition tiny_model :: transfer where
  "tiny_model =
     \<lparr>embedding = tiny_linear 1 2, W = [tiny_linear 3 4], fc = tiny_linear 5 6,
      linear1 = tiny_linear 7 8, linear2 = tiny_linear 9 10\<rparr>"

definition conv_key :: "string \<Rightarrow> bool" where
  "conv_key key \<longleftrightarrow> take 2 key = ''W.''"

definition take_weight :: "(string \<rightharpoonup> tensor) \<Rightarrow> string \<Rightarrow> ndarray parameter \<Rightarrow> ndarray parameter" where
  "take_weight g key p = (case g key of Some (T2 a) \<Rightarrow> p\<lparr>data := a\<rparr> | _ \<Rightarrow> p)"

definition take_bias ::
  "(string \<rightharpoonup> tensor) \<Rightarrow> string \<Rightarrow> real list parameter \<Rightarrow> real list parameter" where
  "take_bias g key p = (case g key of Some (T1 v) \<Rightarrow> p\<lparr>data := v\<rparr> | _ \<Rightarrow> p)"

definition take_linear :: "(string \<rightharpoonup> tensor) \<Rightarrow> string \<Rightarrow> linear \<Rightarrow> linear" where
  "take_linear g prefix l =
     l\<lparr>weight := take_weight g (prefix @ ''.weight'') (weight l),
       bias := take_bias g (prefix @ ''.bias'') (bias l)\<rparr>"

fun take_layers :: "(string \<rightharpoonup> tensor) \<Rightarrow> nat \<Rightarrow> linear list \<Rightarrow> linear list" where
  "take_layers g i [] = []"
| "take_layers g i (l # ls) = take_linear g (''W.'' @ show_nat i) l # take_layers g (i + 1) ls"

definition transferred :: "(string \<rightharpoonup> tensor) \<Rightarrow> transfer \<Rightarrow> transfer" where
  "transferred g self =
     \<lparr>embedding = take_linear g ''embedding'' (embedding self),
      W = take_layers g 0 (W self),
      fc = take_linear g ''fc'' (fc self),
      linear1 = take_linear g ''linear1'' (linear1 self),
      linear2 = take_linear g ''linear2'' (linear2 self)\<rparr>"

text \<open>A checkpoint fits a model when each of its entries under a name of the model has
  the shape of the parameter of that name.\<close>

definition fits :: "(string \<rightharpoonup> tensor) \<Rightarrow> transfer \<Rightarrow> bool" where
  "fits g self \<longleftrightarrow>
     list_all (\<lambda>(key, t). case g key of None \<Rightarrow> True
                            | Some t' \<Rightarrow> tensor_shape t' = tensor_shape t) (state_dict self)"

text \<open>
  A model as \<^verbatim>\<open>Transfer(n_channel = 1, d_out = 1, n_conv_layer = 1)\<close> builds it, all of
  its first values 0, and a checkpoint that holds a bias for its embedding only.
\<close>

definition zero_model :: transfer where
  "zero_model = Transfer_init (\<lambda>k. (\<lambda>r c. 0, \<lambda>r. 0)) 1 1 1"

definition embedding_checkpoint :: "string \<rightharpoonup> tensor" where
  "embedding_checkpoint = [''embedding.bias'' \<mapsto> T1 [1]]"

section \<open>The forward pass: \<^verbatim>\<open>Transfer.forward\<close>\<close>


definition dot :: "real list \<Rightarrow> real list \<Rightarrow> real" where
  "dot u v = sum_list (map2 (*) u v)"

text \<open>A linear layer on one vector: \<open>W v + b\<close>, for a vector of \<open>in_features\<close> entries.\<close>

definition affine :: "linear \<Rightarrow> real list \<Rightarrow> real list" where
  "affine l v = map2 (\<lambda>row b. dot row v + b) (entries (data (weight l))) (data (bias l))"








definition relu :: "real \<Rightarrow> real" where
  "relu v = max 0 v"

definition sigmoid :: "real \<Rightarrow> real" where
  "sigmoid v = 1 / (1 + exp (- v))"






definition head :: "transfer \<Rightarrow> real list \<Rightarrow> real list" where
  "head self v =
     affine (linear2 self) (map relu (affine (linear1 self) (map sigmoid (affine (fc self) v))))"





section \<open>Properties of the learning-rate schedule\<close>

lemma py_index_nat:
  "k < length xs \<Longrightarrow> py_index xs (int k) = Inr (xs ! k)"
  by (simp add: py_index_def)

lemma py_index_diff:
  "k < length xs \<Longrightarrow> j \<le> k \<Longrightarrow> py_index xs (int k - int j) = Inr (xs ! (k - j))"
  using py_index_nat [of "k - j" xs] by simp

lemma no_improvement_nat:
  "k < length L \<Longrightarrow>
   no_improvement L (int k) r = Inr (r \<or> (k > 0 \<and> L ! k \<ge> L ! (k - 1)))"
  using py_index_diff [of k L 1] py_index_nat [of k L]
  by (auto simp: no_improvement_def)

lemma dif_loop_four:
  assumes "k < length L" "5 \<le> k"
  shows "dif_loop L (int k) [1, 2, 3, 4] d =
     Inr (d + abs_change L (k - 1) + abs_change L (k - 2)
            + abs_change L (k - 3) + abs_change L (k - 4))"
proof -
  have ix: "py_index L (int k - j) = Inr (L ! (k - nat j))" if "0 \<le> j" "j \<le> 5" for j
    using py_index_diff [of k L "nat j"] assms that by simp
  have "py_index L (int k - 1) = Inr (L ! (k - 1))"
       "py_index L (int k - 2) = Inr (L ! (k - 2))"
       "py_index L (int k - 3) = Inr (L ! (k - 3))"
       "py_index L (int k - 4) = Inr (L ! (k - 4))"
       "py_index L (int k - 5) = Inr (L ! (k - 5))"
    using ix [of 1] ix [of 2] ix [of 3] ix [of 4] ix [of 5] by simp_all
  moreover have "k - 2 - 1 = k - 3" "k - 3 - 1 = k - 4" "k - 4 - 1 = k - 5" "k - 1 - 1 = k - 2"
    by simp_all
  ultimately show ?thesis
    by (simp add: abs_change_def)
qed

lemma sharp_change_nat:
  assumes "k < length L"
  shows "sharp_change L (int k) r =
     Inr (r \<or> (5 \<le> k \<and> abs_change L k >
        3 * ((abs_change L (k - 1) + abs_change L (k - 2)
              + abs_change L (k - 3) + abs_change L (k - 4)) / 4)))"
proof (cases "5 \<le> k")
  case True
  have ix: "py_index L (int k) = Inr (L ! k)" "py_index L (int k - 1) = Inr (L ! (k - 1))"
    using py_index_nat [of k L] py_index_diff [of k L 1] assms True by simp_all
  have d: "dif_loop L (int k) [1, 2, 3, 4] 0 =
     Inr (abs_change L (k - 1) + abs_change L (k - 2)
            + abs_change L (k - 3) + abs_change L (k - 4))"
    using dif_loop_four [OF assms True, of 0] by (simp del: dif_loop.simps)
  have "sharp_change L (int k) r =
     Inr (if (abs_change L (k - 1) + abs_change L (k - 2)
            + abs_change L (k - 3) + abs_change L (k - 4)) / 4 * 3 < \<bar>L ! k - L ! (k - 1)\<bar>
          then True else r)"
    unfolding sharp_change_def using True by (simp del: dif_loop.simps add: d ix Let_def)
  then show ?thesis using True
    by (auto simp: abs_change_def)
next
  case False
  then show ?thesis by (simp add: sharp_change_def)
qed

lemma reduce_lr_nat:
  assumes "k < length L"
  shows "reduce_lr L (int k) lr opt =
     Inr (if decay_condition L k then (lr * 0.95, set_lr opt (lr * 0.95)) else (lr, opt))"
  using assms
  by (auto simp: reduce_lr_def no_improvement_nat sharp_change_nat decay_condition_def)





lemma lr_schedule_total:
  "0 < lr \<Longrightarrow>
   \<exists>lrs opt'. lr_schedule xs L (int (length L)) lr opt = Inr (lrs, opt') \<and>
      length lrs = length xs \<and> sorted_wrt (\<ge>) lrs \<and> (\<forall>x \<in> set lrs. 0 < x \<and> x \<le> lr)"
proof (induction xs arbitrary: L lr opt)
  case Nil
  then show ?case by simp
next
  case (Cons x xs)
  let ?L = "L @ [x]"
  have eq: "reduce_lr ?L (int (length L)) lr opt =
      Inr (if decay_condition ?L (length L) then (lr * 0.95, set_lr opt (lr * 0.95)) else (lr, opt))"
    by (rule reduce_lr_nat) simp
  have "\<exists>lr1 opt1. reduce_lr ?L (int (length L)) lr opt = Inr (lr1, opt1) \<and>
          (lr1 = lr \<or> lr1 = lr * 0.95)"
  proof (cases "decay_condition ?L (length L)")
    case True
    with eq have "reduce_lr ?L (int (length L)) lr opt = Inr (lr * 0.95, set_lr opt (lr * 0.95))"
      by (simp only: if_True)
    then show ?thesis by blast
  next
    case False
    with eq have "reduce_lr ?L (int (length L)) lr opt = Inr (lr, opt)"
      by (simp only: if_False)
    then show ?thesis by blast
  qed
  then obtain lr1 opt1 where step: "reduce_lr ?L (int (length L)) lr opt = Inr (lr1, opt1)"
    and lr1: "lr1 = lr \<or> lr1 = lr * 0.95"
    by blast
  from lr1 Cons.prems have pos: "0 < lr1" and le: "lr1 \<le> lr" by auto
  have len: "int (length L) + 1 = int (length ?L)" by simp
  from Cons.IH [OF pos, of ?L opt1] obtain lrs opt2 where
    rest: "lr_schedule xs ?L (int (length ?L)) lr1 opt1 = Inr (lrs, opt2)"
    and props: "length lrs = length xs" "sorted_wrt (\<ge>) lrs" "\<forall>x \<in> set lrs. 0 < x \<and> x \<le> lr1"
    by blast
  have "lr_schedule (x # xs) L (int (length L)) lr opt = Inr (lr1 # lrs, opt2)"
    using step rest by (simp only: lr_schedule.simps len sum.case prod.case)
  moreover have "sorted_wrt (\<ge>) (lr1 # lrs)" using props by auto
  moreover have "\<forall>x \<in> set (lr1 # lrs). 0 < x \<and> x \<le> lr" using props pos le by auto
  ultimately show ?case using props(1) by auto
qed

lemma sharp_change_keeps_True:
  "sharp_change L e True = Inr r \<Longrightarrow> r"
  by (auto simp: sharp_change_def Let_def split: if_splits sum.splits)

text \<open>
  Claim C9. Whatever \<open>reduce_lr\<close> returns is the learning rate it was given or
  \<open>0.95\<close> times it; where both triggers fire the factor is still applied once;
  from a non-negative rate the result is never larger. In the epoch loop, started
  from a positive rate, every call returns and the rates never increase.
\<close>

theorem reduce_lr_at_most_once:
  "(reduce_lr L e lr opt = Inr (lr', opt') \<longrightarrow>
      (lr' = lr \<or> lr' = 0.95 * lr) \<and>
      (0 \<le> lr \<longrightarrow> lr' \<le> lr) \<and>
      (no_improvement L e False = Inr True \<and> sharp_change L e False = Inr True
         \<longrightarrow> lr' = 0.95 * lr)) \<and>
   (0 < lr0 \<longrightarrow>
      (\<exists>lrs opt1. lr_schedule xs [] 0 lr0 opt0 = Inr (lrs, opt1) \<and>
         length lrs = length xs \<and> sorted_wrt (\<ge>) (lr0 # lrs)))"
proof -
  have a: "(lr' = lr \<or> lr' = 0.95 * lr) \<and> (0 \<le> lr \<longrightarrow> lr' \<le> lr) \<and>
      (no_improvement L e False = Inr True \<and> sharp_change L e False = Inr True
         \<longrightarrow> lr' = 0.95 * lr)"
    if "reduce_lr L e lr opt = Inr (lr', opt')"
    using that by (auto simp: reduce_lr_def split: sum.splits if_splits dest: sharp_change_keeps_True)
  have b: "\<exists>lrs opt1. lr_schedule xs [] 0 lr0 opt0 = Inr (lrs, opt1) \<and>
         length lrs = length xs \<and> sorted_wrt (\<ge>) (lr0 # lrs)" if "0 < lr0"
    using lr_schedule_total [OF that, of xs "[]" opt0] by auto
  from a b show ?thesis by blast
qed


text \<open>The theorem at epoch 6 of a history whose last loss jumps (both triggers fire), and
  on a loop of four epochs.\<close>

theorem reduce_lr_at_most_once_witness:
  "reduce_lr [0, 1, 2, 3, 4, 5, 100] 6 1 \<lparr>param_groups = []\<rparr> = Inr (0.95, \<lparr>param_groups = []\<rparr>) \<and>
   no_improvement [0, 1, 2, 3, 4, 5, 100] 6 False = Inr True \<and>
   sharp_change [0, 1, 2, 3, 4, 5, 100] 6 False = Inr True \<and>
   (0.95 :: real) \<le> 1 \<and>
   (\<exists>lrs opt1. lr_schedule [3, 2, 2, 1] [] 0 1 \<lparr>param_groups = []\<rparr> = Inr (lrs, opt1) \<and>
      length lrs = 4 \<and> sorted_wrt (\<ge>) (1 # lrs))"
  using reduce_lr_at_most_once [of "[0, 1, 2, 3, 4, 5, 100]" 6 1 "\<lparr>param_groups = []\<rparr>"
      "0.95" "\<lparr>param_groups = []\<rparr>" 1 "[3, 2, 2, 1]" "\<lparr>param_groups = []\<rparr>"]
  by (simp add: reduce_lr_def no_improvement_def sharp_change_def py_index_def set_lr_def)

section \<open>Properties of the featurization\<close>

lemma upt_5: "[0..<5] = [0, 1, 2, 3, 4]" and upt_4: "[0..<4] = [0, 1, 2, 3]"
  and upt_6: "[0..<6] = [0, 1, 2, 3, 4, 5]"
  by (simp_all add: upt_rec)

lemma encode_symbol:
  "one_of_k_encoding (PStr s) [PStr ''C'', PStr ''N'', PStr ''O'', PStr ''F'', PStr ''ELSE'']
     = Inr (one_hot 5 (element_bucket s))"
  by (auto simp: one_of_k_encoding_def py_index_def one_hot_def element_bucket_def upt_5)

lemma encode_charge:
  "one_of_k_encoding (PInt c) [PInt (- 1), PInt 0, PInt 1, PStr ''ELSE'']
     = Inr (one_hot 4 (charge_bucket c))"
  by (auto simp: one_of_k_encoding_def py_index_def one_hot_def charge_bucket_def upt_4)

lemma encode_hydrogens:
  "one_of_k_encoding (PInt h) [PInt 0, PInt 1, PInt 2, PInt 3, PInt 4, PStr ''ELSE'']
     = Inr (one_hot 6 (hydrogen_bucket h))"
  by (auto simp: one_of_k_encoding_def py_index_def one_hot_def hydrogen_bucket_def upt_6)

lemma count_true_one_hot: "k < n \<Longrightarrow> count_true (one_hot n k) = 1"
proof -
  assume "k < n"
  have "filter (\<lambda>b. b) (map (\<lambda>j. j = k) [0..<n]) = map (\<lambda>j. j = k) (filter (\<lambda>j. j = k) [0..<n])"
    by (simp add: filter_map comp_def)
  moreover have "filter (\<lambda>j. j = k) [0..<n] = [k]"
    using \<open>k < n\<close> by (induction n) auto
  ultimately show ?thesis by (simp add: count_true_def one_hot_def)
qed

lemma bucket_bounds:
  "element_bucket s < 5" "charge_bucket c < 4" "hydrogen_bucket h < 6"
  by (auto simp: element_bucket_def charge_bucket_def hydrogen_bucket_def)

lemma get_atom_feature_eq:
  "i < length (atoms m) \<Longrightarrow>
   get_atom_feature m i =
     Inr (one_hot 5 (element_bucket (symbol (atoms m ! i)))
          @ one_hot 4 (charge_bucket (formal_charge (atoms m ! i)))
          @ one_hot 6 (hydrogen_bucket (total_num_hs (atoms m ! i)))
          @ [is_aromatic (atoms m ! i)])"
  by (simp add: get_atom_feature_def GetAtomWithIdx_def encode_symbol encode_charge
      encode_hydrogens)

lemma get_atom_feature_vector:
  "i < length (atoms m) \<Longrightarrow> get_atom_feature m i = Inr (atom_vector (atoms m ! i))"
  by (simp add: get_atom_feature_eq atom_vector_def)

lemma length_one_hot: "length (one_hot n k) = n"
  by (simp add: one_hot_def)

lemma length_atom_vector: "length (atom_vector a) = 16"
  by (simp add: atom_vector_def length_one_hot)

text \<open>
  Claim C2. For every atom of a molecule, \<open>get_atom_feature\<close> returns a vector of 16
  booleans: the one-hot encoding of the element over C, N, O, F and a catch-all, of
  the formal charge over -1, 0, 1 and a catch-all, of the hydrogen count over 0 to 4
  and a catch-all, and the aromaticity flag. Each one-hot segment has exactly one true
  entry, and a value outside a segment's set sets the segment's last entry.
\<close>

theorem get_atom_feature_encoding:
  assumes "i < GetNumAtoms m" and "a = atoms m ! i"
  shows "\<exists>v. get_atom_feature m i = Inr v \<and> length v = 16 \<and>
     v = one_hot 5 (element_bucket (symbol a)) @ one_hot 4 (charge_bucket (formal_charge a))
         @ one_hot 6 (hydrogen_bucket (total_num_hs a)) @ [is_aromatic a] \<and>
     count_true (take 5 v) = 1 \<and> count_true (take 4 (drop 5 v)) = 1 \<and>
     count_true (take 6 (drop 9 v)) = 1 \<and> v ! 15 = is_aromatic a \<and>
     (symbol a \<notin> {''C'', ''N'', ''O'', ''F''} \<longrightarrow> v ! 4) \<and>
     (formal_charge a \<notin> {- 1, 0, 1} \<longrightarrow> v ! 8) \<and>
     (total_num_hs a \<notin> {0, 1, 2, 3, 4} \<longrightarrow> v ! 14)"
proof -
  let ?e = "one_hot 5 (element_bucket (symbol a))"
  let ?c = "one_hot 4 (charge_bucket (formal_charge a))"
  let ?h = "one_hot 6 (hydrogen_bucket (total_num_hs a))"
  let ?v = "?e @ ?c @ ?h @ [is_aromatic a]"
  have eq: "get_atom_feature m i = Inr ?v"
    using assms get_atom_feature_eq [of i m] by (simp add: GetNumAtoms_def)
  have len: "length ?e = 5" "length ?c = 4" "length ?h = 6"
    by (simp_all add: length_one_hot)
  have t1: "take 5 ?v = ?e" using len by simp
  have t2: "take 4 (drop 5 ?v) = ?c" using len by simp
  have t3: "take 6 (drop 9 ?v) = ?h" using len by simp
  have l: "length ?v = 16" using len by simp
  have a15: "?v ! 15 = is_aromatic a" using len by (simp add: nth_append)
  have e4: "?v ! 4" if "symbol a \<notin> {''C'', ''N'', ''O'', ''F''}"
    using that len by (simp add: nth_append one_hot_def element_bucket_def)
  have c8: "?v ! 8" if "formal_charge a \<notin> {- 1, 0, 1}"
    using that len by (simp add: nth_append one_hot_def charge_bucket_def)
  have h14: "?v ! 14" if "total_num_hs a \<notin> {0, 1, 2, 3, 4}"
    using that len by (simp add: nth_append one_hot_def hydrogen_bucket_def)
  have ct: "count_true ?e = 1" "count_true ?c = 1" "count_true ?h = 1"
    by (simp_all only: count_true_one_hot bucket_bounds)
  show ?thesis
  proof (intro exI conjI impI)
    show "get_atom_feature m i = Inr ?v" by (fact eq)
    show "length ?v = 16" by (fact l)
    show "?v = ?v" by (rule refl)
    show "count_true (take 5 ?v) = 1" by (simp only: t1 ct)
    show "count_true (take 4 (drop 5 ?v)) = 1" by (simp only: t2 ct)
    show "count_true (take 6 (drop 9 ?v)) = 1" by (simp only: t3 ct)
    show "?v ! 15 = is_aromatic a" by (fact a15)
    show "?v ! 4" if "symbol a \<notin> {''C'', ''N'', ''O'', ''F''}" using that by (rule e4)
    show "?v ! 8" if "formal_charge a \<notin> {- 1, 0, 1}" using that by (rule c8)
    show "?v ! 14" if "total_num_hs a \<notin> {0, 1, 2, 3, 4}" using that by (rule h14)
  qed
qed

text \<open>The theorem at the oxygen of ethanol.\<close>

theorem get_atom_feature_encoding_witness:
  "(2::nat) < GetNumAtoms ethanol \<and>
   get_atom_feature ethanol 2 =
     Inr [False, False, True, False, False,  False, True, False, False,
          False, True, False, False, False, False,  False]"
  using get_atom_feature_encoding [of 2 ethanol "atoms ethanol ! 2"]
  by (simp add: GetNumAtoms_def ethanol_def carbon_def one_hot_def element_bucket_def
      charge_bucket_def hydrogen_bucket_def upt_5 upt_4 upt_6)
lemma bget_in_range:
  "i < nrows a \<Longrightarrow> j < ncols a \<Longrightarrow> bget a i j = entries a ! i ! j"
  by (auto simp: bget_def)

lemma np_add_same_shape:
  assumes "nrows a = nrows b" "ncols a = ncols b"
  shows "np_add a b =
     Inr \<lparr>nrows = nrows a, ncols = ncols a,
          entries = map (\<lambda>i. map (\<lambda>j. entries a ! i ! j + entries b ! i ! j) [0..<ncols a])
                        [0..<nrows a]\<rparr>"
  using assms by (simp add: np_add_def broadcast_dim_def bget_in_range)

lemma set_block_fits:
  assumes "nrows src = r" "ncols src = c" "r \<le> nrows dst" "c \<le> ncols dst"
  shows "set_block dst r c src =
     Inr (dst\<lparr>entries :=
            map (\<lambda>i. map (\<lambda>j. if i < r \<and> j < c then entries src ! i ! j
                               else entries dst ! i ! j) [0..<ncols dst])
                [0..<nrows dst]\<rparr>)"
  using assms by (simp add: set_block_def min_absorb1 bget_in_range cong: if_cong)


lemma feature_loop_rows:
  assumes "\<forall>i \<in> set is. i < length (atoms m)" "ncols af = 16"
  shows "feature_loop m is af =
     Inr (af\<lparr>nrows := nrows af + length is,
             entries := entries af @ map (\<lambda>i. map of_bool (atom_vector (atoms m ! i))) is\<rparr>)"
  using assms
proof (induction "is" arbitrary: af)
  case Nil
  then show ?case by simp
next
  case (Cons i "is")
  let ?row = "map of_bool (atom_vector (atoms m ! i)) :: real list"
  let ?af = "af\<lparr>nrows := nrows af + 1, entries := entries af @ [?row]\<rparr>"
  have g: "get_atom_feature m i = Inr (atom_vector (atoms m ! i))"
    using Cons.prems by (simp add: get_atom_feature_vector)
  have a: "np_append_row af ?row = Inr ?af"
    using Cons.prems by (simp add: np_append_row_def length_atom_vector)
  have "feature_loop m (i # is) af = feature_loop m is ?af"
    by (simp add: g a)
  also have "\<dots> = Inr (?af\<lparr>nrows := nrows ?af + length is,
             entries := entries ?af @ map (\<lambda>i. map of_bool (atom_vector (atoms m ! i))) is\<rparr>)"
    using Cons.prems by (intro Cons.IH) simp_all
  finally show ?case by simp
qed

lemma adj_plus_eye:
  "np_add (GetAdjacencyMatrix m) (np_eye (length (atoms m))) =
     Inr \<lparr>nrows = length (atoms m), ncols = length (atoms m),
          entries = map (\<lambda>i. map (\<lambda>j. (if bonded m i j then 1 else 0) + (if i = j then 1 else 0))
                                   [0..<length (atoms m)]) [0..<length (atoms m)]\<rparr>"
  by (simp add: np_add_same_shape GetAdjacencyMatrix_def np_eye_def Let_def)

lemma process_smiles_fits:
  assumes "P s = Some m" "int (length (atoms m)) \<le> M"
  shows "process_smiles P M s = Inr (padded_feature_of m (nat M), padded_adj_of m (nat M))"
proof -
  let ?n = "length (atoms m)"
  let ?adj = "\<lparr>nrows = ?n, ncols = ?n,
          entries = map (\<lambda>i. map (\<lambda>j. (if bonded m i j then 1 else 0) + (if i = j then 1 else 0))
                                   [0..<?n]) [0..<?n]\<rparr> :: ndarray"
  let ?af = "\<lparr>nrows = ?n, ncols = 16,
               entries = map (\<lambda>i. map of_bool (atom_vector (atoms m ! i))) [0..<?n]\<rparr> :: ndarray"
  let ?zf = "\<lparr>nrows = nat M, ncols = 16, entries = replicate (nat M) (replicate 16 0)\<rparr> :: ndarray"
  let ?za = "\<lparr>nrows = nat M, ncols = nat M, entries = replicate (nat M) (replicate (nat M) 0)\<rparr> :: ndarray"
  have M: "0 \<le> M" "?n \<le> nat M" using assms by simp_all
  have z1: "np_zeros M 16 = Inr ?zf" and z2: "np_zeros M M = Inr ?za"
    using M by (simp_all add: np_zeros_def)
  have fl: "feature_loop m [0..<?n] \<lparr>nrows = 0, ncols = 16, entries = []\<rparr> = Inr ?af"
    by (subst feature_loop_rows) simp_all
  have s1: "set_block ?zf ?n 16 ?af = Inr (padded_feature_of m (nat M))"
    using M by (subst set_block_fits) (auto simp: padded_feature_of_def length_atom_vector)
  have s2: "set_block ?za ?n ?n ?adj = Inr (padded_adj_of m (nat M))"
    using M by (subst set_block_fits) (auto simp: padded_adj_of_def)
  show ?thesis
    using assms(1) by (simp add: process_smiles_def GetNumAtoms_def adj_plus_eye z1 z2 fl s1 s2)
qed

lemma process_smiles_unparsed:
  "P s = None \<Longrightarrow> process_smiles P M s = Inl AttributeError"
  by (simp add: process_smiles_def)

lemma process_smiles_single_atom_no_room:
  assumes "P s = Some m" "length (atoms m) = 1"
  shows "process_smiles P 0 s =
     Inr (\<lparr>nrows = 0, ncols = 16, entries = []\<rparr>, \<lparr>nrows = 0, ncols = 0, entries = []\<rparr>)"
proof -
  let ?n = "length (atoms m)"
  let ?adj = "\<lparr>nrows = ?n, ncols = ?n,
          entries = map (\<lambda>i. map (\<lambda>j. (if bonded m i j then 1 else 0) + (if i = j then 1 else 0))
                                   [0..<?n]) [0..<?n]\<rparr> :: ndarray"
  let ?af = "\<lparr>nrows = ?n, ncols = 16,
               entries = map (\<lambda>i. map of_bool (atom_vector (atoms m ! i))) [0..<?n]\<rparr> :: ndarray"
  let ?zf = "\<lparr>nrows = 0, ncols = 16, entries = []\<rparr> :: ndarray"
  let ?za = "\<lparr>nrows = 0, ncols = 0, entries = []\<rparr> :: ndarray"
  have z1: "np_zeros 0 16 = Inr ?zf" and z2: "np_zeros 0 0 = Inr ?za"
    by (simp_all add: np_zeros_def)
  have fl: "feature_loop m [0..<?n] \<lparr>nrows = 0, ncols = 16, entries = []\<rparr> = Inr ?af"
    by (subst feature_loop_rows) simp_all
  have s1: "set_block ?zf ?n 16 ?af = Inr ?zf"
    using assms(2) by (simp add: set_block_def)
  have s2: "set_block ?za ?n ?n ?adj = Inr ?za"
    using assms(2) by (simp add: set_block_def)
  show ?thesis
    using assms(1) by (simp add: process_smiles_def GetNumAtoms_def adj_plus_eye z1 z2 fl s1 s2)
qed

lemma process_smiles_oversize:
  assumes "P s = Some m" "M < int (length (atoms m))" "\<not> (length (atoms m) = 1 \<and> M = 0)"
  shows "process_smiles P M s = Inl ValueError"
proof (cases "M < 0")
  case True
  then show ?thesis using assms(1)
    by (simp add: process_smiles_def GetNumAtoms_def adj_plus_eye np_zeros_def)
next
  case False
  let ?n = "length (atoms m)"
  let ?af = "\<lparr>nrows = ?n, ncols = 16,
               entries = map (\<lambda>i. map of_bool (atom_vector (atoms m ! i))) [0..<?n]\<rparr> :: ndarray"
  let ?zf = "\<lparr>nrows = nat M, ncols = 16, entries = replicate (nat M) (replicate 16 0)\<rparr> :: ndarray"
  have fl: "feature_loop m [0..<?n] \<lparr>nrows = 0, ncols = 16, entries = []\<rparr> = Inr ?af"
    by (subst feature_loop_rows) simp_all
  have z1: "np_zeros M 16 = Inr ?zf" using False by (simp add: np_zeros_def)
  have "nat M < ?n" "?n \<noteq> 1" using assms False by auto
  then have s1: "set_block ?zf ?n 16 ?af = Inl ValueError"
    by (simp add: set_block_def)
  show ?thesis
    using assms(1) False
    by (simp add: process_smiles_def GetNumAtoms_def adj_plus_eye z1 fl s1 np_zeros_def)
qed

lemma process_loop_frame:
  "process_loop P ss ds = Inr ds' \<Longrightarrow>
   smiles_list ds' = smiles_list ds \<and> freeE_list ds' = freeE_list ds \<and>
   max_num_atoms ds' = max_num_atoms ds"
  by (induction ss arbitrary: ds) (auto split: sum.splits)

lemma process_loop_appends:
  "process_loop P ss ds = Inr ds' \<Longrightarrow>
   \<exists>fs as. feature_list ds' = feature_list ds @ fs \<and> adj_list ds' = adj_list ds @ as \<and>
     length fs = length ss \<and> length as = length ss \<and>
     (\<forall>k < length ss. process_smiles P (max_num_atoms ds) (ss ! k) = Inr (fs ! k, as ! k))"
proof (induction ss arbitrary: ds)
  case Nil
  then show ?case by simp
next
  case (Cons s ss)
  from Cons.prems obtain f a where
    one: "process_smiles P (max_num_atoms ds) s = Inr (f, a)"
    and rest: "process_loop P ss
       (ds\<lparr>feature_list := feature_list ds @ [f], adj_list := adj_list ds @ [a]\<rparr>) = Inr ds'"
    by (auto split: sum.splits)
  from Cons.IH [OF rest] obtain fs as where
    IH: "feature_list ds' = (feature_list ds @ [f]) @ fs" "adj_list ds' = (adj_list ds @ [a]) @ as"
      "length fs = length ss" "length as = length ss"
      "\<forall>k < length ss. process_smiles P (max_num_atoms ds) (ss ! k) = Inr (fs ! k, as ! k)"
    by auto
  have "\<forall>k < length (s # ss).
      process_smiles P (max_num_atoms ds) ((s # ss) ! k) = Inr ((f # fs) ! k, (a # as) ! k)"
    using one IH(5) by (auto simp: nth_Cons split: nat.splits)
  with IH show ?case
    by (intro exI [of _ "f # fs"] exI [of _ "a # as"]) simp
qed

lemma process_loop_total:
  "\<forall>s \<in> set ss. \<exists>fa. process_smiles P (max_num_atoms ds) s = Inr fa \<Longrightarrow>
   \<exists>ds'. process_loop P ss ds = Inr ds'"
proof (induction ss arbitrary: ds)
  case Nil
  then show ?case by simp
next
  case (Cons s ss)
  then obtain f a where one: "process_smiles P (max_num_atoms ds) s = Inr (f, a)"
    by fastforce
  let ?ds = "ds\<lparr>feature_list := feature_list ds @ [f], adj_list := adj_list ds @ [a]\<rparr>"
  have "\<exists>ds'. process_loop P ss ?ds = Inr ds'"
    using Cons.prems by (intro Cons.IH) simp
  then show ?case using one by simp
qed

lemma process_loop_fails:
  "s \<in> set ss \<Longrightarrow> process_smiles P (max_num_atoms ds) s = Inl e \<Longrightarrow>
   \<exists>e'. process_loop P ss ds = Inl e'"
proof (induction ss arbitrary: ds)
  case Nil
  then show ?case by simp
next
  case (Cons t ss)
  show ?case
  proof (cases "process_smiles P (max_num_atoms ds) t")
    case (Inl e')
    then show ?thesis by simp
  next
    case (Inr fa)
    with Cons.prems have "s \<in> set ss" by auto
    obtain f a where fa: "fa = (f, a)" by (cases fa)
    let ?ds = "ds\<lparr>feature_list := feature_list ds @ [f], adj_list := adj_list ds @ [a]\<rparr>"
    have "\<exists>e'. process_loop P ss ?ds = Inl e'"
      using \<open>s \<in> set ss\<close> Cons.prems(2) by (intro Cons.IH) simp_all
    then show ?thesis using Inr fa by simp
  qed
qed

lemma map_nth_upt: "length xs = n \<Longrightarrow> map (\<lambda>j. f (xs ! j)) [0..<n] = map f xs"
  by (auto intro: nth_equalityI)

lemma padded_feature_of_rows:
  assumes "length (atoms m) \<le> N"
  shows "length (entries (padded_feature_of m N)) = N"
    and "\<forall>i<N. length (entries (padded_feature_of m N) ! i) = 16"
    and "\<forall>i<length (atoms m).
           entries (padded_feature_of m N) ! i = map of_bool (atom_vector (atoms m ! i))"
    and "\<forall>i<N. length (atoms m) \<le> i \<longrightarrow> entries (padded_feature_of m N) ! i = replicate 16 0"
proof -
  show "length (entries (padded_feature_of m N)) = N"
    by (simp add: padded_feature_of_def)
  show "\<forall>i<N. length (entries (padded_feature_of m N) ! i) = 16"
    by (simp add: padded_feature_of_def)
  show "\<forall>i<length (atoms m).
           entries (padded_feature_of m N) ! i = map of_bool (atom_vector (atoms m ! i))"
    using assms by (simp add: padded_feature_of_def map_nth_upt length_atom_vector)
  show "\<forall>i<N. length (atoms m) \<le> i \<longrightarrow> entries (padded_feature_of m N) ! i = replicate 16 0"
    by (simp add: padded_feature_of_def map_replicate_const)
qed

lemma no_self_bond_diag: "no_self_bond m \<Longrightarrow> \<not> bonded m i i"
  by (auto simp: no_self_bond_def bonded_def list_all_iff)

lemma padded_adj_of_entries:
  assumes "length (atoms m) \<le> N"
  shows "length (entries (padded_adj_of m N)) = N"
    and "\<forall>i<N. length (entries (padded_adj_of m N) ! i) = N"
    and "\<forall>i<N. \<forall>j<N. length (atoms m) \<le> i \<or> length (atoms m) \<le> j
            \<longrightarrow> entries (padded_adj_of m N) ! i ! j = 0"
    and "\<forall>i<length (atoms m). \<forall>j<length (atoms m).
           entries (padded_adj_of m N) ! i ! j =
             entries (GetAdjacencyMatrix m) ! i ! j + entries (np_eye (length (atoms m))) ! i ! j"
    and "no_self_bond m \<longrightarrow> (\<forall>i<length (atoms m). entries (padded_adj_of m N) ! i ! i = 1)"
proof -
  show "length (entries (padded_adj_of m N)) = N"
    by (simp add: padded_adj_of_def)
  show "\<forall>i<N. length (entries (padded_adj_of m N) ! i) = N"
    by (simp add: padded_adj_of_def)
  show "\<forall>i<N. \<forall>j<N. length (atoms m) \<le> i \<or> length (atoms m) \<le> j
            \<longrightarrow> entries (padded_adj_of m N) ! i ! j = 0"
    by (auto simp: padded_adj_of_def)
  show "\<forall>i<length (atoms m). \<forall>j<length (atoms m).
           entries (padded_adj_of m N) ! i ! j =
             entries (GetAdjacencyMatrix m) ! i ! j + entries (np_eye (length (atoms m))) ! i ! j"
    using assms by (simp add: padded_adj_of_def GetAdjacencyMatrix_def np_eye_def Let_def)
  show "no_self_bond m \<longrightarrow> (\<forall>i<length (atoms m). entries (padded_adj_of m N) ! i ! i = 1)"
    using assms by (simp add: padded_adj_of_def no_self_bond_diag)
qed

lemma DataSet_init_arrays:
  assumes "DataSet_init P smiles freeE M = Inr ds" "k < length smiles"
  shows "process_smiles P M (smiles ! k) = Inr (feature_list ds ! k, adj_list ds ! k)"
    and "length (feature_list ds) = length smiles" and "length (adj_list ds) = length smiles"
    and "smiles_list ds = smiles"
proof -
  let ?d0 = "\<lparr>smiles_list = smiles, freeE_list = freeE, max_num_atoms = M,
        feature_list = [], adj_list = []\<rparr>"
  have run: "process_loop P smiles ?d0 = Inr ds"
    using assms(1) by (simp add: DataSet_init_def process_data_def)
  from process_loop_appends [OF run] obtain fs as where
    *: "feature_list ds = fs" "adj_list ds = as" "length fs = length smiles"
       "length as = length smiles"
       "\<forall>k < length smiles. process_smiles P M (smiles ! k) = Inr (fs ! k, as ! k)"
    by auto
  show "process_smiles P M (smiles ! k) = Inr (feature_list ds ! k, adj_list ds ! k)"
    using * assms(2) by simp
  show "length (feature_list ds) = length smiles" "length (adj_list ds) = length smiles"
    using * by simp_all
  show "smiles_list ds = smiles"
    using process_loop_frame [OF run] by simp
qed

text \<open>
  Claim C3. For a molecule of at most \<open>max_num_atoms\<close> atoms that \<open>process_data\<close> has
  processed, the stored feature matrix has shape \<open>(max_num_atoms, 16)\<close>, holds the
  atoms' feature rows and is zero in every row from \<open>num_atoms\<close> on; the stored
  adjacency matrix has shape \<open>(max_num_atoms, max_num_atoms)\<close>, is zero in every row
  and column from \<open>num_atoms\<close> on, and equals the molecule's adjacency matrix plus the
  identity on the block of the atoms, so that (a molecule having no bond from an
  atom to itself) every atom has a 1 on the diagonal.
\<close>

theorem padded_arrays_invariant:
  assumes "DataSet_init P smiles freeE M = Inr ds"
    and "k < length smiles" and "P (smiles ! k) = Some m"
    and "int (GetNumAtoms m) \<le> M"
  shows "let F = feature_list ds ! k; A = adj_list ds ! k; n = GetNumAtoms m; N = nat M in
     nrows F = N \<and> ncols F = 16 \<and> length (entries F) = N \<and>
     (\<forall>i<N. length (entries F ! i) = 16) \<and>
     (\<forall>i<n. entries F ! i = map of_bool (atom_vector (atoms m ! i))) \<and>
     (\<forall>i<N. n \<le> i \<longrightarrow> entries F ! i = replicate 16 0) \<and>
     nrows A = N \<and> ncols A = N \<and> length (entries A) = N \<and>
     (\<forall>i<N. length (entries A ! i) = N) \<and>
     (\<forall>i<N. \<forall>j<N. n \<le> i \<or> n \<le> j \<longrightarrow> entries A ! i ! j = 0) \<and>
     (\<forall>i<n. \<forall>j<n. entries A ! i ! j =
         entries (GetAdjacencyMatrix m) ! i ! j + entries (np_eye n) ! i ! j) \<and>
     (no_self_bond m \<longrightarrow> (\<forall>i<n. entries A ! i ! i = 1))"
proof -
  have n: "length (atoms m) \<le> nat M" "int (length (atoms m)) \<le> M"
    using assms(4) by (simp_all add: GetNumAtoms_def)
  have "process_smiles P M (smiles ! k) = Inr (feature_list ds ! k, adj_list ds ! k)"
    using DataSet_init_arrays(1) [OF assms(1,2)] .
  then have F: "feature_list ds ! k = padded_feature_of m (nat M)"
    and A: "adj_list ds ! k = padded_adj_of m (nat M)"
    using process_smiles_fits [of P "smiles ! k" m M] assms(3) n(2) by simp_all
  have shape: "nrows (padded_feature_of m (nat M)) = nat M" "ncols (padded_feature_of m (nat M)) = 16"
    "nrows (padded_adj_of m (nat M)) = nat M" "ncols (padded_adj_of m (nat M)) = nat M"
    by (simp_all add: padded_feature_of_def padded_adj_of_def)
  show ?thesis
    unfolding Let_def F A GetNumAtoms_def
    using padded_feature_of_rows [OF n(1)] padded_adj_of_entries [OF n(1)] shape
    by (intro conjI) assumption+
qed

lemma example_dataset_init:
  "DataSet_init toy_parse [''C'', ''CCO''] [1, 2] 3 = Inr example_dataset"
  by code_simp

text \<open>The theorem at ethanol, the second molecule of the example data set.\<close>

theorem padded_arrays_invariant_witness:
  "DataSet_init toy_parse [''C'', ''CCO''] [1, 2] 3 = Inr example_dataset \<and>
   (1::nat) < length [''C'', ''CCO''] \<and> toy_parse ([''C'', ''CCO''] ! 1) = Some ethanol \<and>
   int (GetNumAtoms ethanol) \<le> 3 \<and> no_self_bond ethanol \<and>
   nrows (feature_list example_dataset ! 1) = 3 \<and>
   ncols (feature_list example_dataset ! 1) = 16 \<and>
   nrows (adj_list example_dataset ! 1) = 3 \<and>
   entries (adj_list example_dataset ! 1) ! 2 ! 2 = 1"
proof -
  have h: "(1::nat) < length [''C'', ''CCO'']" "toy_parse ([''C'', ''CCO''] ! 1) = Some ethanol"
    "int (GetNumAtoms ethanol) \<le> 3" "no_self_bond ethanol"
    by (simp_all add: toy_parse_def GetNumAtoms_def ethanol_def no_self_bond_def)
  have n: "GetNumAtoms ethanol = 3" by (simp add: GetNumAtoms_def ethanol_def)
  note t = padded_arrays_invariant [OF example_dataset_init h(1,2,3), unfolded Let_def n]
  from t have "nrows (feature_list example_dataset ! 1) = 3"
    "ncols (feature_list example_dataset ! 1) = 16" "nrows (adj_list example_dataset ! 1) = 3"
    by simp_all
  moreover from t h(4) have "\<forall>i<3. entries (adj_list example_dataset ! 1) ! i ! i = 1"
    by blast
  then have "entries (adj_list example_dataset ! 1) ! 2 ! 2 = 1"
    by (rule allE [of _ 2]) simp
  ultimately show ?thesis using h example_dataset_init by simp
qed

lemma process_loop_same_arrays:
  assumes "process_loop P ss ds = Inr ds'" "process_loop P ss es = Inr es'"
    and "max_num_atoms ds = max_num_atoms es"
  shows "drop (length (feature_list ds)) (feature_list ds') =
         drop (length (feature_list es)) (feature_list es') \<and>
         drop (length (adj_list ds)) (adj_list ds') = drop (length (adj_list es)) (adj_list es')"
proof -
  from process_loop_appends [OF assms(1)] obtain fs as where
    d: "feature_list ds' = feature_list ds @ fs" "adj_list ds' = adj_list ds @ as"
       "length fs = length ss" "length as = length ss"
       "\<forall>k < length ss. process_smiles P (max_num_atoms ds) (ss ! k) = Inr (fs ! k, as ! k)"
    by blast
  from process_loop_appends [OF assms(2)] obtain gs bs where
    e: "feature_list es' = feature_list es @ gs" "adj_list es' = adj_list es @ bs"
       "length gs = length ss" "length bs = length ss"
       "\<forall>k < length ss. process_smiles P (max_num_atoms es) (ss ! k) = Inr (gs ! k, bs ! k)"
    by blast
  have "fs ! k = gs ! k \<and> as ! k = bs ! k" if "k < length ss" for k
    using d(5) e(5) assms(3) that by (metis Pair_inject sum.inject(2))
  then have "fs = gs" "as = bs"
    using d(3,4) e(3,4) by (auto intro: nth_equalityI)
  then show ?thesis using d e by simp
qed

lemma process_loop_succeeds_alike:
  assumes "process_loop P ss ds = Inr ds'" "max_num_atoms ds = max_num_atoms es"
  shows "\<exists>es'. process_loop P ss es = Inr es'"
proof -
  from process_loop_appends [OF assms(1)] obtain fs as where
    "\<forall>k < length ss. process_smiles P (max_num_atoms ds) (ss ! k) = Inr (fs ! k, as ! k)"
    by blast
  then have "\<forall>s \<in> set ss. \<exists>fa. process_smiles P (max_num_atoms es) s = Inr fa"
    using assms(2) by (metis in_set_conv_nth)
  then show ?thesis by (rule process_loop_total)
qed

text \<open>
  Claim C8. Featurization is a function of the SMILES list and of \<open>max_num_atoms\<close>
  alone. \<open>process_data\<close> run on two objects that agree on these two fields, whatever
  their other fields hold, succeeds on both or on neither and appends the same
  feature and adjacency tensors; two constructions of \<open>DataSet\<close> that differ at most in
  the target list store identical tensors (equal target lists being a special case);
  and the feature vector of an atom depends on that atom alone. The parser
  \<open>MolFromSmiles\<close> is a function of the string, which is how the model reads RDKit.
\<close>

theorem featurization_deterministic:
  "(process_data P ds = Inr ds' \<and> smiles_list es = smiles_list ds \<and>
      max_num_atoms es = max_num_atoms ds \<longrightarrow>
      (\<exists>es'. process_data P es = Inr es' \<and>
         drop (length (feature_list es)) (feature_list es') =
           drop (length (feature_list ds)) (feature_list ds') \<and>
         drop (length (adj_list es)) (adj_list es') =
           drop (length (adj_list ds)) (adj_list ds'))) \<and>
   (DataSet_init P smiles freeE M = Inr d1 \<longrightarrow>
      (\<exists>d2. DataSet_init P smiles freeE' M = Inr d2 \<and>
         feature_list d2 = feature_list d1 \<and> adj_list d2 = adj_list d1)) \<and>
   (i < GetNumAtoms m \<and> i' < GetNumAtoms m' \<and> atoms m ! i = atoms m' ! i' \<longrightarrow>
      get_atom_feature m i = get_atom_feature m' i')"
proof (intro conjI impI)
  assume a: "process_data P ds = Inr ds' \<and> smiles_list es = smiles_list ds \<and>
      max_num_atoms es = max_num_atoms ds"
  then have run: "process_loop P (smiles_list ds) ds = Inr ds'"
    and same: "smiles_list es = smiles_list ds" "max_num_atoms ds = max_num_atoms es"
    by (simp_all add: process_data_def)
  from process_loop_succeeds_alike [OF run same(2)] obtain es' where
    run': "process_loop P (smiles_list ds) es = Inr es'" by blast
  from process_loop_same_arrays [OF run' run] same
  show "\<exists>es'. process_data P es = Inr es' \<and>
         drop (length (feature_list es)) (feature_list es') =
           drop (length (feature_list ds)) (feature_list ds') \<and>
         drop (length (adj_list es)) (adj_list es') =
           drop (length (adj_list ds)) (adj_list ds')"
    using run' by (simp add: process_data_def)
next
  assume a: "DataSet_init P smiles freeE M = Inr d1"
  let ?d = "\<lambda>F. \<lparr>smiles_list = smiles, freeE_list = F, max_num_atoms = M,
        feature_list = [], adj_list = []\<rparr>"
  have run: "process_loop P smiles (?d freeE) = Inr d1"
    using a by (simp add: DataSet_init_def process_data_def)
  from process_loop_succeeds_alike [OF run, of "?d freeE'"] obtain d2 where
    run': "process_loop P smiles (?d freeE') = Inr d2" by auto
  from process_loop_same_arrays [OF run' run]
  show "\<exists>d2. DataSet_init P smiles freeE' M = Inr d2 \<and>
         feature_list d2 = feature_list d1 \<and> adj_list d2 = adj_list d1"
    using run' by (simp add: DataSet_init_def process_data_def)
next
  assume "i < GetNumAtoms m \<and> i' < GetNumAtoms m' \<and> atoms m ! i = atoms m' ! i'"
  then show "get_atom_feature m i = get_atom_feature m' i'"
    by (simp add: GetNumAtoms_def get_atom_feature_vector)
qed

text \<open>The theorem on the example data set, built a second time with other targets.\<close>

theorem featurization_deterministic_witness:
  "DataSet_init toy_parse [''C'', ''CCO''] [1, 2] 3 = Inr example_dataset \<and>
   (\<exists>d2. DataSet_init toy_parse [''C'', ''CCO''] [5, 7] 3 = Inr d2 \<and>
      feature_list d2 = feature_list example_dataset \<and>
      adj_list d2 = adj_list example_dataset) \<and>
   (0::nat) < GetNumAtoms methane \<and> (1::nat) < GetNumAtoms ethanol"
  using featurization_deterministic [of toy_parse example_dataset example_dataset example_dataset
      "[''C'', ''CCO'']" "[1, 2]" 3 example_dataset "[5, 7]" 0 methane 1 ethanol]
    example_dataset_init
  by (simp add: GetNumAtoms_def methane_def ethanol_def)

text \<open>
  Claim C10, as amended. \<open>process_data\<close> never filters: when every SMILES string parses
  to a molecule of at most \<open>max_num_atoms\<close> atoms the construction completes, and
  whenever it completes it has stored one feature tensor and one adjacency tensor per
  SMILES string, so that \<open>__len__\<close> is the length of the input list. When a string does
  not parse, or a molecule has more than \<open>max_num_atoms\<close> atoms without being a
  one-atom molecule under \<open>max_num_atoms = 0\<close>, the construction fails.
\<close>

theorem process_data_no_filtering:
  "((\<forall>s \<in> set smiles. \<exists>m. P s = Some m \<and> int (GetNumAtoms m) \<le> M) \<longrightarrow>
      (\<exists>ds. DataSet_init P smiles freeE M = Inr ds \<and>
         length (feature_list ds) = length smiles \<and> length (adj_list ds) = length smiles \<and>
         smiles_list ds = smiles \<and> DataSet_len ds = length smiles)) \<and>
   (DataSet_init P smiles freeE M = Inr ds' \<longrightarrow>
      length (feature_list ds') = length smiles \<and> length (adj_list ds') = length smiles \<and>
      DataSet_len ds' = length smiles) \<and>
   ((\<exists>s \<in> set smiles. P s = None \<or>
        (\<exists>m. P s = Some m \<and> M < int (GetNumAtoms m) \<and> \<not> (GetNumAtoms m = 1 \<and> M = 0)))
      \<longrightarrow> (\<exists>e. DataSet_init P smiles freeE M = Inl e))"
proof (intro conjI impI)
  let ?d0 = "\<lparr>smiles_list = smiles, freeE_list = freeE, max_num_atoms = M,
        feature_list = [], adj_list = []\<rparr>"
  assume pre: "\<forall>s \<in> set smiles. \<exists>m. P s = Some m \<and> int (GetNumAtoms m) \<le> M"
  have "\<forall>s \<in> set smiles. \<exists>fa. process_smiles P (max_num_atoms ?d0) s = Inr fa"
  proof
    fix s assume "s \<in> set smiles"
    with pre obtain m where "P s = Some m" "int (length (atoms m)) \<le> M"
      by (auto simp: GetNumAtoms_def)
    then show "\<exists>fa. process_smiles P (max_num_atoms ?d0) s = Inr fa"
      using process_smiles_fits [of P s m M] by simp
  qed
  then obtain ds where run: "process_loop P smiles ?d0 = Inr ds"
    using process_loop_total [of smiles P ?d0] by blast
  then have init: "DataSet_init P smiles freeE M = Inr ds"
    by (simp add: DataSet_init_def process_data_def)
  from process_loop_appends [OF run] process_loop_frame [OF run]
  have "length (feature_list ds) = length smiles" "length (adj_list ds) = length smiles"
    "smiles_list ds = smiles"
    by auto
  with init show "\<exists>ds. DataSet_init P smiles freeE M = Inr ds \<and>
         length (feature_list ds) = length smiles \<and> length (adj_list ds) = length smiles \<and>
         smiles_list ds = smiles \<and> DataSet_len ds = length smiles"
    by (simp add: DataSet_len_def)
next
  let ?d0 = "\<lparr>smiles_list = smiles, freeE_list = freeE, max_num_atoms = M,
        feature_list = [], adj_list = []\<rparr>"
  assume "DataSet_init P smiles freeE M = Inr ds'"
  then have run: "process_loop P smiles ?d0 = Inr ds'"
    by (simp add: DataSet_init_def process_data_def)
  from process_loop_appends [OF run] process_loop_frame [OF run]
  have *: "length (feature_list ds') = length smiles" "length (adj_list ds') = length smiles"
    "smiles_list ds' = smiles"
    by auto
  show "length (feature_list ds') = length smiles" by (fact *)
  show "length (adj_list ds') = length smiles" by (fact *)
  show "DataSet_len ds' = length smiles" using * by (simp add: DataSet_len_def)
next
  let ?d0 = "\<lparr>smiles_list = smiles, freeE_list = freeE, max_num_atoms = M,
        feature_list = [], adj_list = []\<rparr>"
  assume "\<exists>s \<in> set smiles. P s = None \<or>
        (\<exists>m. P s = Some m \<and> M < int (GetNumAtoms m) \<and> \<not> (GetNumAtoms m = 1 \<and> M = 0))"
  then obtain s where s: "s \<in> set smiles"
    and bad: "P s = None \<or>
        (\<exists>m. P s = Some m \<and> M < int (length (atoms m)) \<and> \<not> (length (atoms m) = 1 \<and> M = 0))"
    by (auto simp: GetNumAtoms_def)
  from bad have "\<exists>e. process_smiles P (max_num_atoms ?d0) s = Inl e"
    using process_smiles_unparsed [of P s M] process_smiles_oversize [of P s _ M]
    by auto
  then obtain e where "process_smiles P (max_num_atoms ?d0) s = Inl e" by blast
  from process_loop_fails [OF s this]
  show "\<exists>e. DataSet_init P smiles freeE M = Inl e"
    by (simp add: DataSet_init_def process_data_def)
qed

text \<open>
  The claim as stated fails for a one-atom molecule and \<open>max_num_atoms = 0\<close>: the
  slices \<^verbatim>\<open>padded_feature[:1, :16]\<close> and \<^verbatim>\<open>padded_adj[:1, :1]\<close> are empty, numpy
  broadcasts the one-row sources into them, and the construction completes with
  empty tensors although the molecule has more atoms than allowed.
\<close>

theorem process_data_no_filtering_counterexample:
  "toy_parse ''C'' = Some methane \<and> \<not> int (GetNumAtoms methane) \<le> 0 \<and>
   DataSet_init toy_parse [''C''] [1] 0 =
     Inr \<lparr>smiles_list = [''C''], freeE_list = [1], max_num_atoms = 0,
          feature_list = [\<lparr>nrows = 0, ncols = 16, entries = []\<rparr>],
          adj_list = [\<lparr>nrows = 0, ncols = 0, entries = []\<rparr>]\<rparr>"
  by code_simp

text \<open>The theorem on the example data set, and on a list with a string that does not
  parse.\<close>

theorem process_data_no_filtering_witness:
  "(\<exists>ds. DataSet_init toy_parse [''C'', ''CCO''] [1, 2] 3 = Inr ds \<and>
      length (feature_list ds) = 2 \<and> length (adj_list ds) = 2 \<and> DataSet_len ds = 2) \<and>
   toy_parse ''C'' = Some methane \<and> int (GetNumAtoms methane) \<le> 3 \<and>
   toy_parse ''CCO'' = Some ethanol \<and> int (GetNumAtoms ethanol) \<le> 3 \<and>
   toy_parse ''XX'' = None \<and>
   (\<exists>e. DataSet_init toy_parse [''C'', ''XX''] [1, 2] 3 = Inl e)"
proof -
  have h: "toy_parse ''C'' = Some methane" "int (GetNumAtoms methane) \<le> 3"
    "toy_parse ''CCO'' = Some ethanol" "int (GetNumAtoms ethanol) \<le> 3" "toy_parse ''XX'' = None"
    by (simp_all add: toy_parse_def GetNumAtoms_def methane_def ethanol_def)
  have a: "\<forall>s \<in> set [''C'', ''CCO'']. \<exists>m. toy_parse s = Some m \<and> int (GetNumAtoms m) \<le> 3"
    using h by simp
  have b: "\<exists>s \<in> set [''C'', ''XX'']. toy_parse s = None \<or>
        (\<exists>m. toy_parse s = Some m \<and> 3 < int (GetNumAtoms m) \<and> \<not> (GetNumAtoms m = 1 \<and> (3::int) = 0))"
    using h by simp
  from process_data_no_filtering [of "[''C'', ''CCO'']" toy_parse 3 "[1, 2]" example_dataset] a
  have 1: "\<exists>ds. DataSet_init toy_parse [''C'', ''CCO''] [1, 2] 3 = Inr ds \<and>
      length (feature_list ds) = 2 \<and> length (adj_list ds) = 2 \<and> DataSet_len ds = 2"
    by auto
  from process_data_no_filtering [of "[''C'', ''XX'']" toy_parse 3 "[1, 2]" example_dataset] b
  have 2: "\<exists>e. DataSet_init toy_parse [''C'', ''XX''] [1, 2] 3 = Inl e"
    by blast
  from 1 2 h show ?thesis by blast
qed

section \<open>Properties of \<^verbatim>\<open>load_data\<close>\<close>

lemma py_index_one: "2 \<le> length xs \<Longrightarrow> py_index xs 1 = Inr (xs ! 1)"
  by (simp add: py_index_def)

lemma py_index_last: "xs \<noteq> [] \<Longrightarrow> py_index xs (- 1) = Inr (last xs)"
  by (simp add: py_index_def last_conv_nth nat_diff_distrib' Suc_leI)

lemma load_loop_filter:
  assumes "\<forall>line \<in> set lines. well_formed_row float line"
  shows "load_loop P float M lines (ss, fs) =
     Inr (ss @ fst (pairs_of float (filter (kept P M) lines)),
          fs @ snd (pairs_of float (filter (kept P M) lines)))"
  using assms
proof (induction lines arbitrary: ss fs)
  case Nil
  then show ?case by (simp add: pairs_of_def)
next
  case (Cons line lines)
  then have wf: "2 \<le> length line" "line \<noteq> []" and fl: "float (last line) \<noteq> None"
    by (auto simp: well_formed_row_def)
  then obtain x where x: "float (last line) = Some x" by blast
  have ix: "py_index line 1 = Inr (line ! 1)" "py_index line (- 1) = Inr (last line)"
    using wf by (simp_all add: py_index_one py_index_last)
  have rest: "\<forall>line \<in> set lines. well_formed_row float line" using Cons.prems by simp
  show ?case
  proof (cases "kept P M line")
    case True
    then obtain mol where "P (line ! 1) = Some mol" "\<not> int (GetNumAtoms mol) > M"
      by (auto simp: kept_def split: option.splits)
    then show ?thesis
      using True ix x Cons.IH [OF rest] by (simp add: pairs_of_def)
  next
    case False
    then have "P (line ! 1) = None \<or> (\<exists>mol. P (line ! 1) = Some mol \<and> int (GetNumAtoms mol) > M)"
      by (auto simp: kept_def split: option.splits)
    then show ?thesis
      using False ix x Cons.IH [OF rest] by (auto simp: pairs_of_def)
  qed
qed

text \<open>
  Claim C4, as amended. For every CSV input with a header row whose other rows are
  well-formed, \<open>load_data\<close> returns, in the order of the rows, exactly the SMILES
  strings and free energies of the rows whose SMILES string parses to a molecule of at
  most \<open>max_num_atoms\<close> atoms (64 by default, a molecule of exactly that many atoms
  being kept); a row whose SMILES string does not parse leaves the result as it is
  without that row.
\<close>

theorem load_data_keeps_valid_rows:
  "(\<forall>line \<in> set lines. well_formed_row float line) \<longrightarrow>
     load_data P float (header # lines) M = Inr (pairs_of float (filter (kept P M) lines)) \<and>
     load_data_default P float (header # lines) = Inr (pairs_of float (filter (kept P 64) lines)) \<and>
     (\<forall>pre bad post. lines = pre @ [bad] @ post \<and> P (bad ! 1) = None \<longrightarrow>
        load_data P float (header # lines) M = load_data P float (header # pre @ post) M)"
proof
  assume wf: "\<forall>line \<in> set lines. well_formed_row float line"
  have main: "load_data P float (header # rows) K = Inr (pairs_of float (filter (kept P K) rows))"
    if "\<forall>line \<in> set rows. well_formed_row float line" for rows K
    using load_loop_filter [OF that, of P K "[]" "[]"] by (simp add: load_data_def pairs_of_def)
  have skip: "load_data P float (header # lines) M = load_data P float (header # pre @ post) M"
    if "lines = pre @ [bad] @ post \<and> P (bad ! 1) = None" for pre bad post
  proof -
    from that wf have "\<forall>line \<in> set (pre @ post). well_formed_row float line" by auto
    moreover from that have "filter (kept P M) lines = filter (kept P M) (pre @ post)"
      by (simp add: kept_def)
    ultimately show ?thesis using main [OF wf, of M] main [of "pre @ post" M] by simp
  qed
  show "load_data P float (header # lines) M = Inr (pairs_of float (filter (kept P M) lines)) \<and>
     load_data_default P float (header # lines) = Inr (pairs_of float (filter (kept P 64) lines)) \<and>
     (\<forall>pre bad post. lines = pre @ [bad] @ post \<and> P (bad ! 1) = None \<longrightarrow>
        load_data P float (header # lines) M = load_data P float (header # pre @ post) M)"
    using main [OF wf] skip by (simp add: load_data_default_def)
qed

text \<open>
  The claim as stated, for every CSV input, fails: the last field of a row is converted
  by \<^verbatim>\<open>float\<close> before the SMILES string is parsed, so a row whose SMILES string does
  not parse raises \<^verbatim>\<open>ValueError\<close> when that field is no number; a blank line raises
  \<^verbatim>\<open>IndexError\<close>, and a file without rows \<^verbatim>\<open>StopIteration\<close>.
\<close>

theorem load_data_keeps_valid_rows_counterexample:
  "toy_parse ''XX'' = None \<and>
   load_data toy_parse toy_float
     [[''id'', ''smiles'', ''expt''], [''a'', ''CCO'', ''-0.5''], [''b'', ''XX'', ''n/a'']] 64
     = Inl ValueError \<and>
   load_data toy_parse toy_float
     [[''id'', ''smiles'', ''expt''], [''a'', ''CCO'', ''-0.5''], []] 64 = Inl IndexError \<and>
   load_data toy_parse toy_float [] 64 = Inl StopIteration"
  by code_simp

text \<open>The theorem on three rows, the second with a string that does not parse.\<close>

theorem load_data_keeps_valid_rows_witness:
  "well_formed_row toy_float [''a'', ''CCO'', ''-0.5''] \<and>
   well_formed_row toy_float [''b'', ''XX'', ''1.5''] \<and>
   well_formed_row toy_float [''c'', ''C'', ''x'', ''1.5''] \<and>
   toy_parse ''XX'' = None \<and>
   load_data toy_parse toy_float
     [[''id'', ''smiles'', ''expt''], [''a'', ''CCO'', ''-0.5''], [''b'', ''XX'', ''1.5''],
      [''c'', ''C'', ''x'', ''1.5'']] 64
     = Inr ([''CCO'', ''C''], [- 0.5, 1.5])"
proof -
  have wf: "well_formed_row toy_float [''a'', ''CCO'', ''-0.5'']"
    "well_formed_row toy_float [''b'', ''XX'', ''1.5'']"
    "well_formed_row toy_float [''c'', ''C'', ''x'', ''1.5'']"
    by (simp_all add: well_formed_row_def toy_float_def)
  have p: "toy_parse ''XX'' = None" by (simp add: toy_parse_def)
  have k: "filter (kept toy_parse 64)
      [[''a'', ''CCO'', ''-0.5''], [''b'', ''XX'', ''1.5''], [''c'', ''C'', ''x'', ''1.5'']]
     = [[''a'', ''CCO'', ''-0.5''], [''c'', ''C'', ''x'', ''1.5'']]"
    by (simp add: kept_def toy_parse_def GetNumAtoms_def methane_def ethanol_def)
  let ?rows = "[[''a'', ''CCO'', ''-0.5''], [''b'', ''XX'', ''1.5''], [''c'', ''C'', ''x'', ''1.5'']]"
  have "\<forall>line \<in> set ?rows. well_formed_row toy_float line"
    using wf by simp
  with load_data_keeps_valid_rows [of ?rows toy_float toy_parse "[''id'', ''smiles'', ''expt'']" 64]
  have "load_data toy_parse toy_float ([''id'', ''smiles'', ''expt''] # ?rows) 64
     = Inr (pairs_of toy_float (filter (kept toy_parse 64) ?rows))"
    by blast
  then have "load_data toy_parse toy_float ([''id'', ''smiles'', ''expt''] # ?rows) 64
     = Inr ([''CCO'', ''C''], [- 0.5, 1.5])"
    unfolding k by (simp add: pairs_of_def toy_float_def)
  with wf p show ?thesis by simp
qed

section \<open>Properties of \<^verbatim>\<open>load_model\<close> and \<^verbatim>\<open>freeze\<close>\<close>

declare show_nat.simps [simp del]

lemma of_char_digit: "d < 10 \<Longrightarrow> (of_char (digit_char d) :: nat) = 48 + d"
  by (simp add: digit_char_def)

lemma read_show_nat: "read_nat (show_nat n) = n"
proof (induction n rule: show_nat.induct)
  case (1 n)
  show ?case
  proof (cases "n < 10")
    case True
    then show ?thesis
      by (subst show_nat.simps) (simp add: read_nat_def of_char_digit)
  next
    case False
    have "read_nat (show_nat n) = 10 * read_nat (show_nat (n div 10)) + n mod 10"
      using False by (subst show_nat.simps) (simp add: read_nat_def of_char_digit)
    with 1 False show ?thesis by simp
  qed
qed

lemma show_nat_inj: "show_nat i = show_nat j \<Longrightarrow> i = j"
  by (metis read_show_nat)

lemma show_nat_nonempty: "show_nat n \<noteq> []"
  by (subst show_nat.simps) simp

lemma weight_ne_bias: "x @ ''.weight'' \<noteq> y @ ''.bias''"
proof
  assume "x @ ''.weight'' = y @ ''.bias''"
  then have "last (x @ ''.weight'') = last (y @ ''.bias'')" by simp
  then show False by simp
qed

lemma layer_key_inj:
  "''W.'' @ show_nat i @ s = ''W.'' @ show_nat j @ s \<longleftrightarrow> i = j"
  by (auto dest: show_nat_inj)

lemma conv_key_layer: "conv_key (''W.'' @ s)"
  by (simp add: conv_key_def)

lemma layers_state_keys: "k \<in> fst ` set (layers_state i ls) \<Longrightarrow> conv_key k"
  by (induction ls arbitrary: i) (auto simp: linear_state_def conv_key_def)

lemma map_of_layers_other: "\<not> conv_key k \<Longrightarrow> map_of (layers_state i ls) k = None"
  using layers_state_keys [of k i ls] by (auto simp: map_of_eq_None_iff)

lemma map_of_layers_weight:
  "j < length ls \<Longrightarrow>
   map_of (layers_state i ls) (''W.'' @ show_nat (i + j) @ ''.weight'') =
     Some (T2 (data (weight (ls ! j))))"
proof (induction ls arbitrary: i j)
  case Nil
  then show ?case by simp
next
  case (Cons l ls)
  show ?case
  proof (cases j)
    case 0
    then show ?thesis by (simp add: linear_state_def)
  next
    case (Suc j')
    have ne: "show_nat (i + Suc j') \<noteq> show_nat i"
      using show_nat_inj [of "i + Suc j'" i] by auto
    have ne2: "show_nat (i + Suc j') @ ''.weight'' \<noteq> show_nat i @ ''.bias''"
      by (rule weight_ne_bias)
    from Cons.prems Suc have "j' < length ls" by simp
    from Cons.IH [OF this, of "i + 1"] show ?thesis
      using Suc ne ne2 by (simp add: linear_state_def)
  qed
qed

lemma map_of_layers_bias:
  "j < length ls \<Longrightarrow>
   map_of (layers_state i ls) (''W.'' @ show_nat (i + j) @ ''.bias'') =
     Some (T1 (data (bias (ls ! j))))"
proof (induction ls arbitrary: i j)
  case Nil
  then show ?case by simp
next
  case (Cons l ls)
  show ?case
  proof (cases j)
    case 0
    have "show_nat i @ ''.bias'' \<noteq> show_nat i @ ''.weight''"
      using weight_ne_bias [of "show_nat i" "show_nat i"] by metis
    with 0 show ?thesis by (simp add: linear_state_def)
  next
    case (Suc j')
    have ne: "show_nat (i + Suc j') \<noteq> show_nat i"
      using show_nat_inj [of "i + Suc j'" i] by auto
    have ne2: "show_nat (i + Suc j') @ ''.bias'' \<noteq> show_nat i @ ''.weight''"
      using weight_ne_bias [of "show_nat i" "show_nat (i + Suc j')"] by metis
    from Cons.prems Suc have "j' < length ls" by simp
    from Cons.IH [OF this, of "i + 1"] show ?thesis
      using Suc ne ne2 by (simp add: linear_state_def)
  qed
qed

lemma state_dict_embedding:
  "map_of (state_dict self) ''embedding.weight'' = Some (T2 (data (weight (embedding self))))"
  "map_of (state_dict self) ''embedding.bias'' = Some (T1 (data (bias (embedding self))))"
  by (simp_all add: state_dict_def linear_state_def)

lemma state_dict_layers:
  assumes "j < length (W self)"
  shows "map_of (state_dict self) (''W.'' @ show_nat j @ ''.weight'') =
           Some (T2 (data (weight (W self ! j))))"
    and "map_of (state_dict self) (''W.'' @ show_nat j @ ''.bias'') =
           Some (T1 (data (bias (W self ! j))))"
  using map_of_layers_weight [OF assms, of 0] map_of_layers_bias [OF assms, of 0]
  by (simp_all add: state_dict_def linear_state_def map_add_def)

lemma state_dict_head:
  "map_of (state_dict self) ''fc.weight'' = Some (T2 (data (weight (fc self))))"
  "map_of (state_dict self) ''fc.bias'' = Some (T1 (data (bias (fc self))))"
  "map_of (state_dict self) ''linear1.weight'' = Some (T2 (data (weight (linear1 self))))"
  "map_of (state_dict self) ''linear1.bias'' = Some (T1 (data (bias (linear1 self))))"
  "map_of (state_dict self) ''linear2.weight'' = Some (T2 (data (weight (linear2 self))))"
  "map_of (state_dict self) ''linear2.bias'' = Some (T1 (data (bias (linear2 self))))"
  by (simp_all add: state_dict_def linear_state_def map_add_def map_of_layers_other conv_key_def)

lemma map_of_dict_set: "map_of (dict_set d key v) = (map_of d)(key \<mapsto> v)"
  by (induction d key v rule: dict_set.induct) (auto simp: fun_eq_iff)

lemma keys_dict_set: "fst ` set (dict_set d key v) = insert key (fst ` set d)"
  by (induction d key v rule: dict_set.induct) auto

lemma load_dict_loop_Some:
  assumes "\<forall>k \<in> set keys. map_of md k \<noteq> None"
  shows "\<exists>ld'. load_dict_loop md (Some g) keys ld = Inr ld' \<and>
     map_of ld' = (\<lambda>k. if k \<in> set keys
                         then Some (case g k of Some t \<Rightarrow> t | None \<Rightarrow> the (map_of md k))
                         else map_of ld k) \<and>
     fst ` set ld' = fst ` set ld \<union> set keys"
  using assms
proof (induction keys arbitrary: ld)
  case Nil
  then show ?case by simp
next
  case (Cons key keys)
  let ?v = "case g key of Some t \<Rightarrow> t | None \<Rightarrow> the (map_of md key)"
  from Cons.prems obtain t where t: "map_of md key = Some t" by auto
  have step: "load_dict_loop md (Some g) (key # keys) ld =
      load_dict_loop md (Some g) keys (dict_set ld key ?v)"
    using t by (simp split: option.splits)
  from Cons.prems have "\<forall>k \<in> set keys. map_of md k \<noteq> None" by simp
  from Cons.IH [OF this, of "dict_set ld key ?v"] obtain ld' where
    IH: "load_dict_loop md (Some g) keys (dict_set ld key ?v) = Inr ld'"
      "map_of ld' = (\<lambda>k. if k \<in> set keys
                         then Some (case g k of Some t \<Rightarrow> t | None \<Rightarrow> the (map_of md k))
                         else map_of (dict_set ld key ?v) k)"
      "fst ` set ld' = fst ` set (dict_set ld key ?v) \<union> set keys"
    by blast
  have "map_of ld' = (\<lambda>k. if k \<in> set (key # keys)
                         then Some (case g k of Some t \<Rightarrow> t | None \<Rightarrow> the (map_of md k))
                         else map_of ld k)"
    unfolding IH(2) by (auto simp: fun_eq_iff map_of_dict_set)
  moreover have "fst ` set ld' = fst ` set ld \<union> set (key # keys)"
    unfolding IH(3) by (auto simp: keys_dict_set)
  ultimately show ?case using step IH(1) by simp
qed

lemma load_dict_loop_None:
  "keys \<noteq> [] \<Longrightarrow> load_dict_loop md None keys ld = Inl NameError"
  by (cases keys) simp_all

lemma load_weight_take:
  assumes "map_of ld key = Some (case g key of Some t \<Rightarrow> t | None \<Rightarrow> T2 (data p))"
    and "\<forall>t'. g key = Some t' \<longrightarrow> tensor_shape t' = [nrows (data p), ncols (data p)]"
  shows "load_weight ld key p = Inr (take_weight g key p)"
proof (cases "g key")
  case None
  with assms show ?thesis by (simp add: load_weight_def take_weight_def)
next
  case (Some t')
  with assms(2) have "tensor_shape t' = [nrows (data p), ncols (data p)]" by simp
  then obtain a where "t' = T2 a" "nrows a = nrows (data p)" "ncols a = ncols (data p)"
    by (cases t') simp_all
  with assms(1) Some show ?thesis by (simp add: load_weight_def take_weight_def)
qed

lemma load_bias_take:
  assumes "map_of ld key = Some (case g key of Some t \<Rightarrow> t | None \<Rightarrow> T1 (data p))"
    and "\<forall>t'. g key = Some t' \<longrightarrow> tensor_shape t' = [length (data p)]"
  shows "load_bias ld key p = Inr (take_bias g key p)"
proof (cases "g key")
  case None
  with assms show ?thesis by (simp add: load_bias_def take_bias_def)
next
  case (Some t')
  with assms(2) have "tensor_shape t' = [length (data p)]" by simp
  then obtain v where "t' = T1 v" "length v = length (data p)"
    by (cases t') simp_all
  with assms(1) Some show ?thesis by (simp add: load_bias_def take_bias_def)
qed

text \<open>
  A dictionary \<open>ld\<close> built by \<open>load_model\<close> from the state dictionary \<open>md\<close> holds,
  under each name of \<open>md\<close>, the entry of the checkpoint or else that of \<open>md\<close>.
\<close>

lemma load_linear_take:
  assumes ld: "\<And>k t. map_of md k = Some t \<Longrightarrow>
      map_of ld k = Some (case g k of Some t' \<Rightarrow> t' | None \<Rightarrow> t)"
    and own: "map_of md (prefix @ ''.weight'') = Some (T2 (data (weight l)))"
      "map_of md (prefix @ ''.bias'') = Some (T1 (data (bias l)))"
    and fit: "\<And>k t t'. map_of md k = Some t \<Longrightarrow> g k = Some t' \<Longrightarrow> tensor_shape t' = tensor_shape t"
  shows "load_linear ld prefix l = Inr (take_linear g prefix l)"
proof -
  have w: "load_weight ld (prefix @ ''.weight'') (weight l)
      = Inr (take_weight g (prefix @ ''.weight'') (weight l))"
    using ld [OF own(1)] fit [OF own(1)] by (intro load_weight_take) auto
  have b: "load_bias ld (prefix @ ''.bias'') (bias l)
      = Inr (take_bias g (prefix @ ''.bias'') (bias l))"
    using ld [OF own(2)] fit [OF own(2)] by (intro load_bias_take) auto
  show ?thesis by (simp add: load_linear_def w b take_linear_def)
qed

lemma load_layers_take:
  assumes ld: "\<And>k t. map_of md k = Some t \<Longrightarrow>
      map_of ld k = Some (case g k of Some t' \<Rightarrow> t' | None \<Rightarrow> t)"
    and own: "\<And>j. j < length ls \<Longrightarrow>
      map_of md (''W.'' @ show_nat (i + j) @ ''.weight'') = Some (T2 (data (weight (ls ! j)))) \<and>
      map_of md (''W.'' @ show_nat (i + j) @ ''.bias'') = Some (T1 (data (bias (ls ! j))))"
    and fit: "\<And>k t t'. map_of md k = Some t \<Longrightarrow> g k = Some t' \<Longrightarrow> tensor_shape t' = tensor_shape t"
  shows "load_layers ld i ls = Inr (take_layers g i ls)"
  using own
proof (induction ls arbitrary: i)
  case Nil
  then show ?case by simp
next
  case (Cons l ls)
  from Cons.prems [of 0] have own0:
    "map_of md ((''W.'' @ show_nat i) @ ''.weight'') = Some (T2 (data (weight l)))"
    "map_of md ((''W.'' @ show_nat i) @ ''.bias'') = Some (T1 (data (bias l)))"
    by simp_all
  have head: "load_linear ld (''W.'' @ show_nat i) l = Inr (take_linear g (''W.'' @ show_nat i) l)"
    using ld own0 fit by (rule load_linear_take)
  have "load_layers ld (i + 1) ls = Inr (take_layers g (i + 1) ls)"
  proof (rule Cons.IH)
    fix j assume "j < length ls"
    then show "map_of md (''W.'' @ show_nat (i + 1 + j) @ ''.weight'')
          = Some (T2 (data (weight (ls ! j)))) \<and>
        map_of md (''W.'' @ show_nat (i + 1 + j) @ ''.bias'') = Some (T1 (data (bias (ls ! j))))"
      using Cons.prems [of "Suc j"] by simp
  qed
  with head show ?case by simp
qed

lemma fitsD:
  "fits g self \<Longrightarrow> map_of (state_dict self) k = Some t \<Longrightarrow> g k = Some t' \<Longrightarrow>
   tensor_shape t' = tensor_shape t"
  by (auto simp: fits_def list_all_iff dest!: map_of_SomeD split: option.splits)

lemma load_model_result:
  assumes "fits g self"
  shows "load_model self arg (Some g) = Inr (transferred g self)"
proof -
  let ?md = "state_dict self"
  have "\<forall>k \<in> set (map fst ?md). map_of ?md k \<noteq> None"
    by (simp add: map_of_eq_None_iff)
  from load_dict_loop_Some [OF this, of g "[]"] obtain ld where
    loop: "load_dict_loop ?md (Some g) (map fst ?md) [] = Inr ld"
    and look: "map_of ld = (\<lambda>k. if k \<in> set (map fst ?md)
                         then Some (case g k of Some t \<Rightarrow> t | None \<Rightarrow> the (map_of ?md k))
                         else None)"
    and keys: "fst ` set ld = set (map fst ?md)"
    by (auto cong: if_cong)
  have ld: "map_of ld k = Some (case g k of Some t' \<Rightarrow> t' | None \<Rightarrow> t)"
    if "map_of ?md k = Some t" for k t
    using that unfolding look by (auto dest: map_of_SomeD split: option.splits intro: rev_image_eqI)
  have fit: "tensor_shape t' = tensor_shape t" if "map_of ?md k = Some t" "g k = Some t'" for k t t'
    using fitsD [OF assms that] .
  have strict: "list_all (\<lambda>(key, t). key \<in> set (map fst ?md)) ld"
  proof -
    have "a \<in> set (map fst ?md)" if "(a, b) \<in> set ld" for a b
      using that keys by (metis fst_conv image_eqI)
    then show ?thesis by (auto simp: list_all_iff)
  qed
  have e: "load_linear ld ''embedding'' (embedding self) = Inr (take_linear g ''embedding'' (embedding self))"
    using ld _ _ fit by (rule load_linear_take) (simp_all add: state_dict_embedding)
  have w: "load_layers ld 0 (W self) = Inr (take_layers g 0 (W self))"
  proof (rule load_layers_take [where md = ?md])
    fix j assume "j < length (W self)"
    from state_dict_layers [OF this]
    show "map_of ?md (''W.'' @ show_nat (0 + j) @ ''.weight'') = Some (T2 (data (weight (W self ! j)))) \<and>
      map_of ?md (''W.'' @ show_nat (0 + j) @ ''.bias'') = Some (T1 (data (bias (W self ! j))))"
      by simp
  qed (fact ld fit)+
  have f: "load_linear ld ''fc'' (fc self) = Inr (take_linear g ''fc'' (fc self))"
    using ld _ _ fit by (rule load_linear_take) (simp_all add: state_dict_head)
  have l1: "load_linear ld ''linear1'' (linear1 self) = Inr (take_linear g ''linear1'' (linear1 self))"
    using ld _ _ fit by (rule load_linear_take) (simp_all add: state_dict_head)
  have l2: "load_linear ld ''linear2'' (linear2 self) = Inr (take_linear g ''linear2'' (linear2 self))"
    using ld _ _ fit by (rule load_linear_take) (simp_all add: state_dict_head)
  have "load_state_dict self ld = Inr (transferred g self)"
    using strict by (simp add: load_state_dict_def e w f l1 l2 transferred_def)
  with loop show ?thesis by (simp add: load_model_def Let_def)
qed

lemma state_dict_nonempty: "state_dict self \<noteq> []"
  by (simp add: state_dict_def linear_state_def)

lemma load_model_unbound: "load_model self arg None = Inl NameError"
  by (simp add: load_model_def Let_def load_dict_loop_None state_dict_nonempty)

lemma take_layers_empty: "take_layers Map.empty i ls = ls"
  by (induction ls arbitrary: i) (simp_all add: take_linear_def take_weight_def take_bias_def)

lemma transferred_empty: "transferred Map.empty self = self"
  by (simp add: transferred_def take_layers_empty take_linear_def take_weight_def take_bias_def)

lemma fits_empty: "fits Map.empty self"
  by (simp add: fits_def list_all_iff)

text \<open>Loading keeps every flag, whatever the dictionary holds.\<close>

lemma load_weight_flag:
  "load_weight sd key p = Inr p' \<Longrightarrow> requires_grad p' = requires_grad p"
  by (auto simp: load_weight_def split: option.splits tensor.splits if_splits)

lemma load_bias_flag:
  "load_bias sd key p = Inr p' \<Longrightarrow> requires_grad p' = requires_grad p"
  by (auto simp: load_bias_def split: option.splits tensor.splits if_splits)

lemma load_linear_flags:
  assumes "load_linear sd prefix l = Inr l'"
  shows "map (\<lambda>(k, t, r). (k, r)) (linear_parameters prefix l') =
         map (\<lambda>(k, t, r). (k, r)) (linear_parameters prefix l)"
proof -
  from assms obtain w b where
    *: "load_weight sd (prefix @ ''.weight'') (weight l) = Inr w"
       "load_bias sd (prefix @ ''.bias'') (bias l) = Inr b" "l' = l\<lparr>weight := w, bias := b\<rparr>"
    by (auto simp: load_linear_def split: sum.splits)
  from load_weight_flag [OF *(1)] load_bias_flag [OF *(2)] show ?thesis
    by (simp add: linear_parameters_def *(3))
qed

lemma load_layers_flags:
  "load_layers sd i ls = Inr ls' \<Longrightarrow>
   map (\<lambda>(k, t, r). (k, r)) (layers_parameters i ls') =
   map (\<lambda>(k, t, r). (k, r)) (layers_parameters i ls)"
proof (induction ls arbitrary: i ls')
  case Nil
  then show ?case by simp
next
  case (Cons l ls)
  from Cons.prems obtain l' ls1 where
    *: "load_linear sd (''W.'' @ show_nat i) l = Inr l'" "load_layers sd (i + 1) ls = Inr ls1"
       "ls' = l' # ls1"
    by (auto split: sum.splits)
  from load_linear_flags [OF *(1)] Cons.IH [OF *(2)] show ?case
    by (simp add: *(3))
qed

lemma load_state_dict_flags:
  assumes "load_state_dict self sd = Inr m"
  shows "map (\<lambda>(k, t, r). (k, r)) (named_parameters m) =
         map (\<lambda>(k, t, r). (k, r)) (named_parameters self)"
proof -
  from assms obtain e ws f l1 l2 where
    *: "load_linear sd ''embedding'' (embedding self) = Inr e"
       "load_layers sd 0 (W self) = Inr ws"
       "load_linear sd ''fc'' (fc self) = Inr f"
       "load_linear sd ''linear1'' (linear1 self) = Inr l1"
       "load_linear sd ''linear2'' (linear2 self) = Inr l2"
       "m = \<lparr>embedding = e, W = ws, fc = f, linear1 = l1, linear2 = l2\<rparr>"
    by (auto simp: load_state_dict_def split: if_splits sum.splits)
  show ?thesis
    unfolding named_parameters_def *(6) map_append
    using load_linear_flags [OF *(1)] load_layers_flags [OF *(2)] load_linear_flags [OF *(3)]
      load_linear_flags [OF *(4)] load_linear_flags [OF *(5)]
    by simp
qed

lemma load_model_flags:
  "load_model self arg g = Inr m \<Longrightarrow>
   map (\<lambda>(k, t, r). (k, r)) (named_parameters m) =
   map (\<lambda>(k, t, r). (k, r)) (named_parameters self)"
  by (auto simp: load_model_def Let_def split: sum.splits dest: load_state_dict_flags)

text \<open>What \<open>freeze\<close> does to the parameters and to the state dictionary.\<close>

lemma layers_parameters_freeze:
  "layers_parameters i (map freeze_linear ls) =
   map (\<lambda>(k, t, r). (k, t, r \<and> \<not> conv_key k)) (layers_parameters i ls)"
  by (induction ls arbitrary: i)
    (simp_all add: linear_parameters_def freeze_linear_def conv_key_def)

lemma named_parameters_freeze:
  "named_parameters (freeze m) =
   map (\<lambda>(k, t, r). (k, t, r \<and> \<not> conv_key k)) (named_parameters m)"
  by (simp add: named_parameters_def freeze_def layers_parameters_freeze
      linear_parameters_def conv_key_def)

lemma layers_state_freeze: "layers_state i (map freeze_linear ls) = layers_state i ls"
  by (induction ls arbitrary: i) (simp_all add: linear_state_def freeze_linear_def)

lemma state_dict_freeze: "state_dict (freeze m) = state_dict m"
  by (simp add: state_dict_def freeze_def layers_state_freeze)

lemma state_dict_named_parameters:
  "state_dict m = map (\<lambda>(k, t, r). (k, t)) (named_parameters m)"
proof -
  have "layers_state i ls = map (\<lambda>(k, t, r). (k, t)) (layers_parameters i ls)" for i ls
    by (induction ls arbitrary: i) (simp_all add: linear_state_def linear_parameters_def)
  then show ?thesis
    by (simp add: state_dict_def named_parameters_def linear_state_def linear_parameters_def)
qed

lemma fresh_linear_flags:
  "list_all (\<lambda>(k, t, r). r) (linear_parameters prefix (nn_Linear init a b))"
  by (simp add: linear_parameters_def nn_Linear_def)

lemma fresh_layers_flags:
  "list_all (\<lambda>(k, t, r). r) (layers_parameters i (map (\<lambda>j. nn_Linear (f j) a b) js))"
  by (induction js arbitrary: i) (simp_all add: fresh_linear_flags)

lemma fresh_model_flags:
  "list_all (\<lambda>(k, t, r). r) (named_parameters (Transfer_init init c d n))"
  by (simp add: named_parameters_def Transfer_init_def fresh_layers_flags fresh_linear_flags)

lemma take_linear_state:
  assumes "\<forall>(k, t) \<in> set (linear_state prefix l).
             \<forall>t'. g k = Some t' \<longrightarrow> tensor_shape t' = tensor_shape t"
  shows "linear_state prefix (take_linear g prefix l) =
         map (\<lambda>(k, t). (k, case g k of Some t' \<Rightarrow> t' | None \<Rightarrow> t)) (linear_state prefix l)"
proof -
  have w: "T2 (data (take_weight g (prefix @ ''.weight'') (weight l))) =
      (case g (prefix @ ''.weight'') of Some t' \<Rightarrow> t' | None \<Rightarrow> T2 (data (weight l)))"
  proof (cases "g (prefix @ ''.weight'')")
    case None
    then show ?thesis by (simp add: take_weight_def)
  next
    case (Some t')
    with assms have "tensor_shape t' = [nrows (data (weight l)), ncols (data (weight l))]"
      by (simp add: linear_state_def)
    then obtain a where "t' = T2 a" by (cases t') simp_all
    with Some show ?thesis by (simp add: take_weight_def)
  qed
  have b: "T1 (data (take_bias g (prefix @ ''.bias'') (bias l))) =
      (case g (prefix @ ''.bias'') of Some t' \<Rightarrow> t' | None \<Rightarrow> T1 (data (bias l)))"
  proof (cases "g (prefix @ ''.bias'')")
    case None
    then show ?thesis by (simp add: take_bias_def)
  next
    case (Some t')
    with assms have "tensor_shape t' = [length (data (bias l))]"
      by (simp add: linear_state_def)
    then obtain v where "t' = T1 v" by (cases t') simp_all
    with Some show ?thesis by (simp add: take_bias_def)
  qed
  show ?thesis
    using w b by (simp add: linear_state_def take_linear_def)
qed

lemma take_layers_state:
  assumes "\<forall>(k, t) \<in> set (layers_state i ls).
             \<forall>t'. g k = Some t' \<longrightarrow> tensor_shape t' = tensor_shape t"
  shows "layers_state i (take_layers g i ls) =
         map (\<lambda>(k, t). (k, case g k of Some t' \<Rightarrow> t' | None \<Rightarrow> t)) (layers_state i ls)"
  using assms
proof (induction ls arbitrary: i)
  case Nil
  then show ?case by simp
next
  case (Cons l ls)
  have 1: "linear_state (''W.'' @ show_nat i) (take_linear g (''W.'' @ show_nat i) l) =
      map (\<lambda>(k, t). (k, case g k of Some t' \<Rightarrow> t' | None \<Rightarrow> t)) (linear_state (''W.'' @ show_nat i) l)"
    using Cons.prems by (intro take_linear_state) auto
  have 2: "layers_state (i + 1) (take_layers g (i + 1) ls) =
      map (\<lambda>(k, t). (k, case g k of Some t' \<Rightarrow> t' | None \<Rightarrow> t)) (layers_state (i + 1) ls)"
    using Cons.prems by (intro Cons.IH) auto
  show ?case
    by (simp only: layers_state.simps take_layers.simps 1 2 map_append)
qed

lemma state_dict_transferred:
  assumes "fits g self"
  shows "state_dict (transferred g self) =
         map (\<lambda>(k, t). (k, case g k of Some t' \<Rightarrow> t' | None \<Rightarrow> t)) (state_dict self)"
proof -
  have fit: "\<forall>(k, t) \<in> set (state_dict self).
      \<forall>t'. g k = Some t' \<longrightarrow> tensor_shape t' = tensor_shape t"
    using assms by (auto simp: fits_def list_all_iff split: option.splits)
  have "linear_state ''embedding'' (take_linear g ''embedding'' (embedding self)) =
      map (\<lambda>(k, t). (k, case g k of Some t' \<Rightarrow> t' | None \<Rightarrow> t))
        (linear_state ''embedding'' (embedding self))"
    using fit by (intro take_linear_state) (auto simp: state_dict_def)
  moreover have "layers_state 0 (take_layers g 0 (W self)) =
      map (\<lambda>(k, t). (k, case g k of Some t' \<Rightarrow> t' | None \<Rightarrow> t)) (layers_state 0 (W self))"
    using fit by (intro take_layers_state) (auto simp: state_dict_def)
  moreover have "linear_state ''fc'' (take_linear g ''fc'' (fc self)) =
      map (\<lambda>(k, t). (k, case g k of Some t' \<Rightarrow> t' | None \<Rightarrow> t)) (linear_state ''fc'' (fc self))"
    using fit by (intro take_linear_state) (auto simp: state_dict_def)
  moreover have "linear_state ''linear1'' (take_linear g ''linear1'' (linear1 self)) =
      map (\<lambda>(k, t). (k, case g k of Some t' \<Rightarrow> t' | None \<Rightarrow> t))
        (linear_state ''linear1'' (linear1 self))"
    using fit by (intro take_linear_state) (auto simp: state_dict_def)
  moreover have "linear_state ''linear2'' (take_linear g ''linear2'' (linear2 self)) =
      map (\<lambda>(k, t). (k, case g k of Some t' \<Rightarrow> t' | None \<Rightarrow> t))
        (linear_state ''linear2'' (linear2 self))"
    using fit by (intro take_linear_state) (auto simp: state_dict_def)
  ultimately show ?thesis
    by (simp only: state_dict_def transferred_def transfer.simps map_append)
qed

text \<open>
  Claim C5. The claim fails on the code: \<open>load_model\<close> never reads its argument. Its
  result is the same for every argument; it raises \<^verbatim>\<open>NameError\<close> when the module
  has no global \<^verbatim>\<open>pretrain_dict\<close>; and with an empty global dictionary it leaves
  the model as it was, whatever the argument holds.
\<close>

theorem load_model_reads_global:
  "load_model self d g = load_model self d' g \<and>
   load_model self d None = Inl NameError \<and>
   load_model self d (Some Map.empty) = Inr self"
  using load_model_result [OF fits_empty, of self d]
  by (simp add: load_model_unbound transferred_empty) (simp add: load_model_def)

lemma flags_after_freeze:
  "map (\<lambda>(k, t, r). (k, r)) (named_parameters (freeze m)) =
   map (\<lambda>(k, r). (k, r \<and> \<not> conv_key k)) (map (\<lambda>(k, t, r). (k, r)) (named_parameters m))"
  by (simp add: named_parameters_freeze split_def comp_def)

text \<open>
  Claim C6, as amended. After \<open>load_model\<close> and then \<open>freeze\<close>, the parameters of the
  convolution layers \<open>W\<close> have \<open>requires_grad = False\<close> and every other parameter has
  the flag it had before the two calls, \<open>True\<close> in a model just built, whether the
  checkpoint held the parameter or not; \<open>freeze\<close> changes no name and no value, and
  no flag outside \<open>W\<close>. With a checkpoint that fits the model \<open>load_model\<close> returns.
\<close>

theorem freeze_after_load_model:
  "(load_model self arg g = Inr loaded \<longrightarrow>
      named_parameters (freeze loaded) =
        map (\<lambda>(k, t, r). (k, t, r \<and> \<not> conv_key k)) (named_parameters loaded) \<and>
      map (\<lambda>(k, t, r). (k, r)) (named_parameters (freeze loaded)) =
        map (\<lambda>(k, t, r). (k, r \<and> \<not> conv_key k)) (named_parameters self) \<and>
      state_dict (freeze loaded) = state_dict loaded) \<and>
   (fits g' self \<longrightarrow> (\<exists>loaded. load_model self arg (Some g') = Inr loaded)) \<and>
   list_all (\<lambda>(k, t, r). r) (named_parameters (Transfer_init init c d n))"
proof (intro conjI impI)
  assume a: "load_model self arg g = Inr loaded"
  show "named_parameters (freeze loaded) =
        map (\<lambda>(k, t, r). (k, t, r \<and> \<not> conv_key k)) (named_parameters loaded)"
    by (rule named_parameters_freeze)
  show "map (\<lambda>(k, t, r). (k, r)) (named_parameters (freeze loaded)) =
        map (\<lambda>(k, t, r). (k, r \<and> \<not> conv_key k)) (named_parameters self)"
    unfolding flags_after_freeze load_model_flags [OF a]
    by (simp add: split_def comp_def)
  show "state_dict (freeze loaded) = state_dict loaded"
    by (rule state_dict_freeze)
next
  assume "fits g' self"
  then show "\<exists>loaded. load_model self arg (Some g') = Inr loaded"
    using load_model_result [of g' self arg] by blast
next
  show "list_all (\<lambda>(k, t, r). r) (named_parameters (Transfer_init init c d n))"
    by (rule fresh_model_flags)
qed

lemma show_nat_0: "show_nat 0 = ''0''"
  by code_simp

lemma embedding_checkpoint_fits: "fits embedding_checkpoint zero_model"
  by (simp add: fits_def state_dict_def linear_state_def zero_model_def Transfer_init_def
      embedding_checkpoint_def nn_Linear_def)

text \<open>
  The claim as stated fails: a parameter outside \<open>W\<close> that the checkpoint holds is
  transferred and stays trainable. Here the bias of the embedding takes the value of
  the checkpoint and keeps \<open>requires_grad = True\<close> after \<open>freeze\<close>.
\<close>

theorem freeze_after_load_model_counterexample:
  "load_model zero_model embedding_checkpoint (Some embedding_checkpoint)
     = Inr (transferred embedding_checkpoint zero_model) \<and>
   data (bias (embedding zero_model)) = [0] \<and>
   embedding_checkpoint ''embedding.bias'' = Some (T1 [1]) \<and>
   data (bias (embedding (freeze (transferred embedding_checkpoint zero_model)))) = [1] \<and>
   requires_grad (bias (embedding (freeze (transferred embedding_checkpoint zero_model))))"
  using load_model_result [OF embedding_checkpoint_fits, of embedding_checkpoint]
  by (simp add: freeze_def transferred_def take_linear_def take_bias_def take_weight_def
      embedding_checkpoint_def zero_model_def Transfer_init_def nn_Linear_def)

text \<open>The theorem on the same model and checkpoint: only the two parameters of the
  convolution layer are frozen.\<close>

theorem freeze_after_load_model_witness:
  "load_model zero_model embedding_checkpoint (Some embedding_checkpoint)
     = Inr (transferred embedding_checkpoint zero_model) \<and>
   fits embedding_checkpoint zero_model \<and>
   map (\<lambda>(k, t, r). (k, r))
     (named_parameters (freeze (transferred embedding_checkpoint zero_model))) =
     [(''embedding.weight'', True), (''embedding.bias'', True),
      (''W.0.weight'', False), (''W.0.bias'', False),
      (''fc.weight'', True), (''fc.bias'', True),
      (''linear1.weight'', True), (''linear1.bias'', True),
      (''linear2.weight'', True), (''linear2.bias'', True)]"
proof -
  have l: "load_model zero_model embedding_checkpoint (Some embedding_checkpoint)
     = Inr (transferred embedding_checkpoint zero_model)"
    using load_model_result [OF embedding_checkpoint_fits] .
  have "map (\<lambda>(k, t, r). (k, r))
     (named_parameters (freeze (transferred embedding_checkpoint zero_model))) =
      map (\<lambda>(k, t, r). (k, r \<and> \<not> conv_key k)) (named_parameters zero_model)"
    using freeze_after_load_model [of zero_model embedding_checkpoint "Some embedding_checkpoint"
        "transferred embedding_checkpoint zero_model" embedding_checkpoint "\<lambda>k. (\<lambda>r c. 0, \<lambda>r. 0)" 1 1 1] l
    by blast
  also have "\<dots> = [(''embedding.weight'', True), (''embedding.bias'', True),
      (''W.0.weight'', False), (''W.0.bias'', False),
      (''fc.weight'', True), (''fc.bias'', True),
      (''linear1.weight'', True), (''linear1.bias'', True),
      (''linear2.weight'', True), (''linear2.bias'', True)]"
    by (simp add: named_parameters_def linear_parameters_def zero_model_def Transfer_init_def
        nn_Linear_def conv_key_def show_nat_0)
  finally show ?thesis using l embedding_checkpoint_fits by simp
qed

section \<open>Properties of the forward pass\<close>

















end
